theory Spec2Isabelle
  imports Complex_Main "HOL-Library.Word"
begin

unbundle bit_operations_syntax

section \<open>Python values, failures and the random generator\<close>

text \<open>
  The environment \<open>UavLander\<close> of \<open>uav_lander.py\<close> is embedded as pure functions.
  Python floats are read as real numbers, Python integers as \<open>int\<close>. An exception
  raised by the source is a value \<open>Inl e\<close> of the result type.
\<close>

datatype error = IndexError | ZeroDivisionError | ValueError | AssertionError

definition and_then :: "error + 'a \<Rightarrow> ('a \<Rightarrow> error + 'b) \<Rightarrow> error + 'b" where
  "and_then r f = (case r of Inl e \<Rightarrow> Inl e | Inr v \<Rightarrow> f v)"

primrec mapM_err :: "('a \<Rightarrow> error + 'b) \<Rightarrow> 'a list \<Rightarrow> error + 'b list" where
  "mapM_err f [] = Inr []"
| "mapM_err f (x # xs) =
     and_then (f x) (\<lambda>y. and_then (mapM_err f xs) (\<lambda>ys. Inr (y # ys)))"

primrec foldM_err :: "('a \<Rightarrow> 's \<Rightarrow> error + 's) \<Rightarrow> 'a list \<Rightarrow> 's \<Rightarrow> error + 's" where
  "foldM_err f [] s = Inr s"
| "foldM_err f (x # xs) s = and_then (f x s) (foldM_err f xs)"

text \<open>\<open>range(n)\<close>: empty when \<open>n \<le> 0\<close>.\<close>

definition py_range :: "int \<Rightarrow> int list" where
  "py_range n = map int [0..<nat n]"

text \<open>
  Subscripting a sequence of length \<open>n\<close> with \<open>i\<close>: indices \<open>-n \<le> i < 0\<close> count from
  the end, anything outside \<open>-n \<le> i < n\<close> raises \<open>IndexError\<close> (lists and NumPy arrays
  alike).
\<close>

definition py_norm :: "nat \<Rightarrow> int \<Rightarrow> nat option" where
  "py_norm n i =
     (if 0 \<le> i \<and> i < int n then Some (nat i)
      else if - int n \<le> i \<and> i < 0 then Some (nat (int n + i))
      else None)"

definition py_get :: "'a list \<Rightarrow> int \<Rightarrow> error + 'a" where
  "py_get xs i = (case py_norm (length xs) i of None \<Rightarrow> Inl IndexError | Some k \<Rightarrow> Inr (xs ! k))"

definition py_set :: "'a list \<Rightarrow> int \<Rightarrow> 'a \<Rightarrow> error + 'a list" where
  "py_set xs i v =
     (case py_norm (length xs) i of None \<Rightarrow> Inl IndexError | Some k \<Rightarrow> Inr (xs[k := v]))"

text \<open>Float division by a Python integer: a zero divisor raises.\<close>

definition py_fdiv :: "real \<Rightarrow> int \<Rightarrow> error + real" where
  "py_fdiv a b = (if b = 0 then Inl ZeroDivisionError else Inr (a / real_of_int b))"

text \<open>
  \<open>self.np_random\<close> is the stream of unit-interval samples the generator has not yet
  handed out. \<open>uniform(low, high)\<close> scales the next sample, \<open>low + (high - low) * u\<close>;
  with \<open>size = k\<close> it takes the next \<open>k\<close> samples in order.
\<close>

type_synonym rng = "nat \<Rightarrow> real"

definition unit_samples :: "rng \<Rightarrow> bool" where
  "unit_samples g = (\<forall>n. 0 \<le> g n \<and> g n < 1)"

definition uniform :: "real \<Rightarrow> real \<Rightarrow> rng \<Rightarrow> real \<times> rng" where
  "uniform low high g = (low + (high - low) * g 0, \<lambda>n. g (Suc n))"

definition uniform_size :: "real \<Rightarrow> real \<Rightarrow> nat \<Rightarrow> rng \<Rightarrow> real list \<times> rng" where
  "uniform_size low high k g = (map (\<lambda>j. low + (high - low) * g j) [0..<k], \<lambda>n. g (k + n))"

section \<open>Module constants\<close>

text \<open>
  The constants imported from \<open>gymnasium.envs.box2d.lunar_lander\<close> are parameters of
  the model; \<open>SCALE\<close> is a nonzero float there.
\<close>

record params =
  VIEWPORT_W :: real
  VIEWPORT_H :: real
  SCALE :: real
  FPS :: real
  INITIAL_RANDOM :: real
  LEG_AWAY :: real
  LEG_DOWN :: real
  LEG_W :: real
  LEG_H :: real
  LEG_SPRING_TORQUE :: real
  LANDER_POLY :: "(real \<times> real) list"

definition params_ok :: "params \<Rightarrow> bool" where
  "params_ok P = (0 < VIEWPORT_W P \<and> 0 < VIEWPORT_H P \<and> 0 < SCALE P)"

section \<open>Terrain generation\<close>

type_synonym point = "real \<times> real"

record terrain =
  height :: "real list"
  chunk_x :: "real list"
  smooth_y :: "real list"
  helipad_x1 :: real
  helipad_x2 :: real
  helipad_y :: real
  moon_edges :: "(point \<times> point) list"
  sky_polys :: "point list list"

text \<open>
  The comprehension of line 65, \<open>[W / (CHUNKS - 1) * i for i in range(CHUNKS)]\<close>.
\<close>

definition gen_chunk_x :: "real \<Rightarrow> int \<Rightarrow> error + real list" where
  "gen_chunk_x W CHUNKS =
     mapM_err (\<lambda>i. and_then (py_fdiv W (CHUNKS - 1)) (\<lambda>q. Inr (q * real_of_int i)))
       (py_range CHUNKS)"

text \<open>The three-point average of lines 68 to 71.\<close>

definition gen_smooth_y :: "real list \<Rightarrow> int \<Rightarrow> error + real list" where
  "gen_smooth_y hs CHUNKS =
     mapM_err (\<lambda>i. and_then (py_get hs (i - 1)) (\<lambda>a.
                   and_then (py_get hs (i + 0)) (\<lambda>b.
                   and_then (py_get hs (i + 1)) (\<lambda>c.
                   Inr (0.33 * (a + b + c))))))
       (py_range CHUNKS)"

text \<open>One round of the loop of lines 85 to 87.\<close>

definition platform_step :: "int \<Rightarrow> real \<Rightarrow> real \<Rightarrow> int \<Rightarrow> real list \<Rightarrow> error + real list" where
  "platform_step CHUNKS hy diff_high i ys =
     and_then (py_set ys (CHUNKS div 2 - (i + 1)) (hy - diff_high * real_of_int (i + 1))) (\<lambda>ys.
     py_set ys (CHUNKS div 2 + (i + 1)) (hy + diff_high * real_of_int (i + 1)))"

text \<open>One round of the loop of lines 93 to 97: the edge fixture and the sky polygon.\<close>

definition moon_segment ::
  "real \<Rightarrow> real list \<Rightarrow> real list \<Rightarrow> int \<Rightarrow> error + ((point \<times> point) \<times> point list)" where
  "moon_segment H xs ys i =
     and_then (py_get xs i) (\<lambda>x1.
     and_then (py_get ys i) (\<lambda>y1.
     and_then (py_get xs (i + 1)) (\<lambda>x2.
     and_then (py_get ys (i + 1)) (\<lambda>y2.
     Inr (((x1, y1), (x2, y2)), [(x1, y1), (x2, y2), (x2, H), (x1, H)])))))"

text \<open>
  \<open>_gen_uav_terrain\<close> (an Isabelle name cannot start with an underscore). The result
  holds the attributes it sets on \<open>self\<close>, the final values of its locals \<open>height\<close>,
  \<open>chunk_x\<close> and \<open>smooth_y\<close>, the edges and sky polygons it creates, and the generator it
  leaves. A negative \<open>size\<close> makes \<open>uniform\<close> raise \<open>ValueError\<close>.
\<close>

definition gen_uav_terrain :: "params \<Rightarrow> int \<Rightarrow> bool \<Rightarrow> rng \<Rightarrow> error + (terrain \<times> rng)" where
  "gen_uav_terrain P terrain_node flat_platform g0 =
    (let W = VIEWPORT_W P / SCALE P;
         H = VIEWPORT_H P / SCALE P;
         CHUNKS = terrain_node;
         width_para = 6
     in
     if CHUNKS + 1 < 0 then Inl ValueError
     else
       let (height0, g1) = uniform_size 0 (H / 2) (nat (CHUNKS + 1)) g0 in
       and_then (gen_chunk_x W CHUNKS) (\<lambda>chunk_x.
       and_then (gen_smooth_y height0 CHUNKS) (\<lambda>smooth_y0.
       let (hy, g2) = uniform (H / 2) (H * 3 / 5) g1 in
       and_then (py_set height0 (CHUNKS div 2 + 0) hy) (\<lambda>height.
       and_then (py_get height (CHUNKS div 2 + 0)) (\<lambda>helipad_y.
       let width_node = (CHUNKS div width_para - 1) div 2 in
       and_then (py_get chunk_x (CHUNKS div 2 - width_node)) (\<lambda>helipad_x1.
       and_then (py_get chunk_x (CHUNKS div 2 + width_node)) (\<lambda>helipad_x2.
       and_then (py_set smooth_y0 (CHUNKS div 2 + 0) helipad_y) (\<lambda>smooth_y1.
       let (angle, g3) = (if \<not> flat_platform then uniform (- pi / 6) (pi / 6) g2 else (0, g2)) in
       and_then (py_fdiv (tan angle * W) (CHUNKS - 1)) (\<lambda>diff_high.
       and_then (foldM_err (platform_step CHUNKS helipad_y diff_high) (py_range width_node) smooth_y1)
         (\<lambda>smooth_y.
       and_then (mapM_err (moon_segment H chunk_x smooth_y) (py_range (CHUNKS - 1))) (\<lambda>segs.
       Inr (\<lparr>height = height, chunk_x = chunk_x, smooth_y = smooth_y,
             helipad_x1 = helipad_x1, helipad_x2 = helipad_x2, helipad_y = helipad_y,
             moon_edges = map fst segs, sky_polys = map snd segs\<rparr>, g3))))))))))))"

section \<open>Vehicle assembly\<close>

text \<open>
  Bodies, fixtures and joints as the source passes them to the physics engine. Colours
  are left out. \<open>friction\<close> is \<open>None\<close> where the source does not give it;
  \<open>groupIndex\<close> is never given and keeps the engine's default \<open>0\<close>. The filter bits are
  16-bit words, as in Box2D.
\<close>

datatype shape = polygonShape "point list" | boxShape real real | edgeShape point point

record fixtureDef =
  shape :: shape
  density :: real
  friction :: "real option"
  restitution :: real
  categoryBits :: "16 word"
  maskBits :: "16 word"
  groupIndex :: int

record body =
  position :: point
  angle :: real
  fixtures :: fixtureDef

record revoluteJointDef =
  localAnchorA :: point
  localAnchorB :: point
  enableMotor :: bool
  enableLimit :: bool
  maxMotorTorque :: real
  motorSpeed :: real
  lowerAngle :: real
  upperAngle :: real

record leg =
  leg_body :: body
  ground_contact :: bool
  joint :: revoluteJointDef

record vehicle =
  lander :: body
  initial_force :: point
  legs :: "leg list"

text \<open>The body of the loop \<open>for i in [-1, +1]\<close> of lines 129 to 163.\<close>

definition gen_leg :: "params \<Rightarrow> real \<Rightarrow> int \<Rightarrow> leg" where
  "gen_leg P initial_y i =
     \<lparr>leg_body =
        \<lparr>position = (VIEWPORT_W P / SCALE P / 2 - real_of_int i * LEG_AWAY P / SCALE P, initial_y),
         angle = real_of_int i * 0.05,
         fixtures =
           \<lparr>shape = boxShape (LEG_W P / SCALE P) (LEG_H P / SCALE P),
            density = 1.0, friction = None, restitution = 0.0,
            categoryBits = 0x0020, maskBits = 0x001, groupIndex = 0\<rparr>\<rparr>,
      ground_contact = False,
      joint =
        \<lparr>localAnchorA = (0, 0),
         localAnchorB = (real_of_int i * LEG_AWAY P / SCALE P, LEG_DOWN P / SCALE P),
         enableMotor = True,
         enableLimit = True,
         maxMotorTorque = LEG_SPRING_TORQUE P,
         motorSpeed = 0.3 * real_of_int i,
         lowerAngle = (if i = - 1 then 0.9 - 0.5 else - 0.9),
         upperAngle = (if i = - 1 then 0.9 else - 0.9 + 0.5)\<rparr>\<rparr>"

text \<open>\<open>_gen_uav_lander\<close>: the lander, the force applied to its centre, the two legs.\<close>

definition gen_uav_lander :: "params \<Rightarrow> rng \<Rightarrow> vehicle \<times> rng" where
  "gen_uav_lander P g0 =
    (let initial_y = VIEWPORT_H P / SCALE P;
         lander =
           \<lparr>position = (VIEWPORT_W P / SCALE P / 2, initial_y),
            angle = 0.0,
            fixtures =
              \<lparr>shape = polygonShape (map (\<lambda>(x, y). (x / SCALE P, y / SCALE P)) (LANDER_POLY P)),
               density = 5.0, friction = Some 0.1, restitution = 0.0,
               categoryBits = 0x0010, maskBits = 0x001, groupIndex = 0\<rparr>\<rparr>;
         (fx, g1) = uniform (- INITIAL_RANDOM P) (INITIAL_RANDOM P) g0;
         (fy, g2) = uniform (- INITIAL_RANDOM P) (INITIAL_RANDOM P) g1
     in (\<lparr>lander = lander, initial_force = (fx, fy),
          legs = map (gen_leg P initial_y) [- 1, 1]\<rparr>, g2))"

section \<open>Collision filtering and the contact listener\<close>

text \<open>
  The ground: \<open>CreateEdgeFixture(vertices=[p1, p2], density=0, friction=0.1)\<close> of line 96
  gives no filter, so the fixture has the engine's defaults, category \<open>0x0001\<close> and
  mask \<open>0xFFFF\<close>.
\<close>

definition moon_fixture :: "point \<times> point \<Rightarrow> fixtureDef" where
  "moon_fixture e =
     \<lparr>shape = edgeShape (fst e) (snd e), density = 0, friction = Some 0.1, restitution = 0,
      categoryBits = 0x0001, maskBits = 0xFFFF, groupIndex = 0\<rparr>"

text \<open>
  The engine's rule for a pair of fixtures (Box2D's \<open>b2ContactFilter::ShouldCollide\<close>, not
  part of the repository): a shared nonzero group decides; otherwise each fixture's mask
  must contain a category bit of the other.
\<close>

definition should_collide :: "fixtureDef \<Rightarrow> fixtureDef \<Rightarrow> bool" where
  "should_collide a b =
     (if groupIndex a = groupIndex b \<and> groupIndex a \<noteq> 0 then 0 < groupIndex a
      else (maskBits a AND categoryBits b) \<noteq> 0 \<and> (categoryBits a AND maskBits b) \<noteq> 0)"

section \<open>The episode: contacts, step and reset\<close>

text \<open>
  The lander body as the engine reports it once \<open>self.world.Step\<close> has returned, and the
  attributes of \<open>self\<close> that \<open>step\<close> and \<open>reset\<close> read and write.
  \<open>leg0_ground_contact\<close> and \<open>leg1_ground_contact\<close> are \<open>self.legs[0].ground_contact\<close> and
  \<open>self.legs[1].ground_contact\<close>; \<open>continuous_mode\<close> is \<open>self.continuous\<close>.
\<close>

record lander_state =
  pos :: point
  vel :: point
  lander_angle :: real
  angularVelocity :: real
  awake :: bool

record env =
  np_random :: rng
  game_over :: bool
  prev_shaping :: "real option"
  continuous_mode :: bool
  enable_wind :: bool
  wind_idx :: int
  torque_idx :: int
  env_helipad_y :: real
  leg0_ground_contact :: bool
  leg1_ground_contact :: bool

datatype body_ref = MoonBody | LanderBody | LegBody nat

datatype contact = BeginContact body_ref body_ref | EndContact body_ref body_ref

text \<open>
  Modelled from the spec: the Contact Tracker of section 4.3 (\<open>ContactDetector\<close>, imported
  from gymnasium). On a new contact, if either body is the lander the episode is marked
  game-over; if either body is a leg, that leg's ground-contact flag is set. On
  contact-end for a leg, its flag is cleared.
\<close>

definition begin_contact :: "env \<Rightarrow> body_ref \<Rightarrow> body_ref \<Rightarrow> env" where
  "begin_contact e a b =
     e\<lparr>game_over := (game_over e \<or> a = LanderBody \<or> b = LanderBody),
       leg0_ground_contact := (leg0_ground_contact e \<or> a = LegBody 0 \<or> b = LegBody 0),
       leg1_ground_contact := (leg1_ground_contact e \<or> a = LegBody 1 \<or> b = LegBody 1)\<rparr>"

definition end_contact :: "env \<Rightarrow> body_ref \<Rightarrow> body_ref \<Rightarrow> env" where
  "end_contact e a b =
     e\<lparr>leg0_ground_contact := (leg0_ground_contact e \<and> \<not> (a = LegBody 0 \<or> b = LegBody 0)),
       leg1_ground_contact := (leg1_ground_contact e \<and> \<not> (a = LegBody 1 \<or> b = LegBody 1))\<rparr>"

definition contact_listener :: "env \<Rightarrow> contact \<Rightarrow> env" where
  "contact_listener e c =
     (case c of BeginContact a b \<Rightarrow> begin_contact e a b | EndContact a b \<Rightarrow> end_contact e a b)"

text \<open>The fixture of each body the source creates; \<open>LegBody k\<close> is \<open>self.legs[k]\<close>.\<close>

definition fixture_of :: "terrain \<Rightarrow> vehicle \<Rightarrow> body_ref \<Rightarrow> error + fixtureDef" where
  "fixture_of t v r =
     (case r of
        MoonBody \<Rightarrow> and_then (py_get (moon_edges t) 0) (\<lambda>e. Inr (moon_fixture e))
      | LanderBody \<Rightarrow> Inr (fixtures (lander v))
      | LegBody k \<Rightarrow> and_then (py_get (legs v) (int k)) (\<lambda>l. Inr (fixtures (leg_body l))))"

text \<open>
  A contact between two bodies begins only if their fixtures pass the filter; the
  listener then runs. \<open>None\<close>: no contact begins.
\<close>

definition contact_event :: "terrain \<Rightarrow> vehicle \<Rightarrow> env \<Rightarrow> body_ref \<Rightarrow> body_ref \<Rightarrow> env option" where
  "contact_event t v e a b =
     (case (fixture_of t v a, fixture_of t v b) of
        (Inr fa, Inr fb) \<Rightarrow> if a \<noteq> b \<and> should_collide fa fb then Some (begin_contact e a b) else None
      | _ \<Rightarrow> None)"

text \<open>
  \<open>step\<close>. The source file carries the method as a commented-out block (lines 189 to
  345); the class inherits it from \<open>LunarLander\<close>. The model is of that block. What the
  method hands to the engine (wind force and torque, impulses, particles) is outside the
  model; what the engine hands back is an input: the contact events it reports to the
  listener during \<open>self.world.Step\<close>, and the lander body afterwards.
\<close>

datatype action = Discrete int | Continuous real real

definition clip :: "real \<Rightarrow> real \<Rightarrow> real \<Rightarrow> real" where
  "clip x lo hi = min (max x lo) hi"

text \<open>Lines 194 to 222: the wind counters advance while neither leg touches the ground.\<close>

definition apply_wind :: "env \<Rightarrow> env" where
  "apply_wind e =
     (if enable_wind e \<and> \<not> (leg0_ground_contact e \<or> leg1_ground_contact e)
      then e\<lparr>wind_idx := wind_idx e + 1, torque_idx := torque_idx e + 1\<rparr>
      else e)"

text \<open>
  Lines 224 to 278: \<open>m_power\<close> and \<open>s_power\<close>. A discrete action outside the action
  space fails the assertion, as an array does in discrete mode; a scalar in continuous
  mode cannot be subscripted.
\<close>

definition engine_power :: "bool \<Rightarrow> action \<Rightarrow> error + (real \<times> real)" where
  "engine_power cont act =
     (case act of
        Continuous x y \<Rightarrow>
          if cont then
            let a0 = clip x (- 1) 1;
                a1 = clip y (- 1) 1;
                m_power = (if a0 > 0.0 then (clip a0 0.0 1.0 + 1.0) * 0.5 else 0.0);
                s_power = (if \<bar>a1\<bar> > 0.5 then clip \<bar>a1\<bar> 0.5 1.0 else 0.0)
            in Inr (m_power, s_power)
          else Inl AssertionError
      | Discrete a \<Rightarrow>
          if cont then Inl IndexError
          else if a \<in> {0, 1, 2, 3} then
            Inr (if a = 2 then 1.0 else 0.0, if a \<in> {1, 3} then 1.0 else 0.0)
          else Inl AssertionError)"

text \<open>Line 234: the two dispersion samples, used only for the impulse positions.\<close>

definition draw_dispersion :: "params \<Rightarrow> env \<Rightarrow> (real \<times> real) \<times> env" where
  "draw_dispersion P e =
     (let (d0, g1) = uniform (- 1.0) 1.0 (np_random e);
          (d1, g2) = uniform (- 1.0) 1.0 g1
      in ((d0 / SCALE P, d1 / SCALE P), e\<lparr>np_random := g2\<rparr>))"

text \<open>Line 301: while the engine advances, the listener runs on each contact it reports.\<close>

definition world_Step :: "env \<Rightarrow> contact list \<Rightarrow> env" where
  "world_Step e cs = foldl contact_listener e cs"

text \<open>Lines 303 to 314: the observation vector.\<close>

definition observe :: "params \<Rightarrow> env \<Rightarrow> lander_state \<Rightarrow> real list" where
  "observe P e b =
     [(fst (pos b) - VIEWPORT_W P / SCALE P / 2) / (VIEWPORT_W P / SCALE P / 2),
      (snd (pos b) - (env_helipad_y e + LEG_DOWN P / SCALE P)) / (VIEWPORT_H P / SCALE P / 2),
      fst (vel b) * (VIEWPORT_W P / SCALE P / 2) / FPS P,
      snd (vel b) * (VIEWPORT_H P / SCALE P / 2) / FPS P,
      lander_angle b,
      20.0 * angularVelocity b / FPS P,
      if leg0_ground_contact e then 1.0 else 0.0,
      if leg1_ground_contact e then 1.0 else 0.0]"

text \<open>Lines 318 to 324.\<close>

definition shaping_of :: "real list \<Rightarrow> real" where
  "shaping_of state =
     - 100 * sqrt (state ! 0 * state ! 0 + state ! 1 * state ! 1)
     - 100 * sqrt (state ! 2 * state ! 2 + state ! 3 * state ! 3)
     - 100 * \<bar>state ! 4\<bar>
     + 10 * state ! 6
     + 10 * state ! 7"

text \<open>
  The whole method. The result is the tuple it returns, with \<open>self\<close> after the call.
\<close>

definition step ::
  "params \<Rightarrow> env \<Rightarrow> action \<Rightarrow> contact list \<Rightarrow> lander_state \<Rightarrow>
     error + (real list \<times> real \<times> bool \<times> bool \<times> env)" where
  "step P e act cs b =
     (let e = apply_wind e in
      and_then (engine_power (continuous_mode e) act) (\<lambda>(m_power, s_power).
        let (dispersion, e) = draw_dispersion P e;
            e = world_Step e cs;
            state = observe P e b;
            reward = 0;
            shaping = shaping_of state;
            reward = (case prev_shaping e of Some p \<Rightarrow> shaping - p | None \<Rightarrow> reward);
            e = e\<lparr>prev_shaping := Some shaping\<rparr>;
            reward = reward - m_power * 0.30;
            reward = reward - s_power * 0.03;
            terminated = False;
            (terminated, reward) =
              (if game_over e \<or> \<bar>state ! 0\<bar> \<ge> 1.0 then (True, - 100) else (terminated, reward));
            (terminated, reward) =
              (if \<not> awake b then (True, 100) else (terminated, reward))
        in Inr (state, reward, terminated, False, e)))"

text \<open>
  \<open>reset\<close> (lines 165 to 185). \<open>e\<close> is \<open>self\<close> once \<open>super().reset(seed=seed)\<close> has
  returned, its generator seeded there; destroying the old bodies, installing the
  listener and rendering do not touch the attributes modelled. The method ends with a
  zero-action \<open>step\<close>, whose observation it returns; \<open>cs\<close> and \<open>b\<close> are what the engine
  reports during that step.
\<close>

definition reset ::
  "params \<Rightarrow> env \<Rightarrow> contact list \<Rightarrow> lander_state \<Rightarrow> error + (real list \<times> env \<times> terrain \<times> vehicle)" where
  "reset P e cs b =
     (let e = e\<lparr>game_over := False\<rparr>;
          e = e\<lparr>prev_shaping := None\<rparr>
      in
      and_then (gen_uav_terrain P 90 False (np_random e)) (\<lambda>(t, g).
        let e = e\<lparr>np_random := g, env_helipad_y := helipad_y t\<rparr>;
            (v, g) = gen_uav_lander P (np_random e);
            e = e\<lparr>np_random := g, leg0_ground_contact := False, leg1_ground_contact := False\<rparr>
        in
        and_then (step P e (if continuous_mode e then Continuous 0 0 else Discrete 0) cs b)
          (\<lambda>(state, reward, terminated, truncated, e). Inr (state, e, t, v))))"

section \<open>Concrete inputs\<close>

text \<open>The values the constants have in gymnasium, and a generator cycling through four samples.\<close>

definition gym_params :: params where
  "gym_params =
     \<lparr>VIEWPORT_W = 600, VIEWPORT_H = 400, SCALE = 30, FPS = 50, INITIAL_RANDOM = 1000,
      LEG_AWAY = 20, LEG_DOWN = 18, LEG_W = 2, LEG_H = 8, LEG_SPRING_TORQUE = 40,
      LANDER_POLY = [(- 14, 17), (- 17, 0), (- 17, - 10), (17, - 10), (17, 0), (14, 17)]\<rparr>"

definition quarter_rng :: rng where
  "quarter_rng n = real (n mod 4) / 4"

text \<open>
  A discrete-mode environment with its flags cleared, for a terrain whose platform is at
  height \<open>23/3\<close>; the lander at its spawn point, and a moment later, lower.
\<close>

definition fresh_env :: env where
  "fresh_env =
     \<lparr>np_random = quarter_rng, game_over = False, prev_shaping = None, continuous_mode = False,
      enable_wind = False, wind_idx = 0, torque_idx = 0, env_helipad_y = 23 / 3,
      leg0_ground_contact = False, leg1_ground_contact = False\<rparr>"

definition spawned_lander :: lander_state where
  "spawned_lander =
     \<lparr>pos = (10, 40 / 3), vel = (0, 0), lander_angle = 0, angularVelocity = 0, awake = True\<rparr>"

definition falling_lander :: lander_state where
  "falling_lander =
     \<lparr>pos = (10, 13), vel = (0, 0), lander_angle = 0, angularVelocity = 0, awake = True\<rparr>"

section \<open>Properties of the Python primitives\<close>

lemma and_then_Inr [simp]: "and_then (Inr v) f = f v"
  by (simp add: and_then_def)

lemma and_then_Inl [simp]: "and_then (Inl e) f = Inl e"
  by (simp add: and_then_def)

lemma mapM_err_Inr:
  "(\<And>x. x \<in> set xs \<Longrightarrow> f x = Inr (h x)) \<Longrightarrow> mapM_err f xs = Inr (map h xs)"
  by (induction xs) simp_all

lemma foldM_err_append:
  "foldM_err f (xs @ ys) s = and_then (foldM_err f xs s) (foldM_err f ys)"
  by (induction xs arbitrary: s) (simp_all add: and_then_def split: sum.splits)

lemma py_range_Suc: "py_range (int (Suc k)) = py_range (int k) @ [int k]"
proof -
  have "nat (int (Suc k)) = Suc k" "nat (int k) = k" by simp_all
  then show ?thesis unfolding py_range_def by (simp del: of_nat_Suc)
qed

lemma set_py_range: "set (py_range n) = {i. 0 \<le> i \<and> i < n}"
  unfolding py_range_def
proof (intro set_eqI iffI)
  fix x assume "x \<in> set (map int [0..<nat n])"
  then show "x \<in> {i. 0 \<le> i \<and> i < n}" by auto
next
  fix x assume "x \<in> {i. 0 \<le> i \<and> i < n}"
  then have "x = int (nat x)" "nat x < nat n" by auto
  then show "x \<in> set (map int [0..<nat n])"
    by (metis atLeast0LessThan image_eqI lessThan_iff set_map set_upt)
qed

lemma length_py_range [simp]: "length (py_range n) = nat n"
  by (simp add: py_range_def)

lemma nth_py_range: "j < nat n \<Longrightarrow> py_range n ! j = int j"
  by (simp add: py_range_def)

lemma py_get_in: "0 \<le> i \<Longrightarrow> i < int (length xs) \<Longrightarrow> py_get xs i = Inr (xs ! nat i)"
  by (simp add: py_get_def py_norm_def)

lemma py_get_last: "xs \<noteq> [] \<Longrightarrow> py_get xs (- 1) = Inr (xs ! (length xs - 1))"
proof -
  assume "xs \<noteq> []"
  then have "0 < length xs" by simp
  then have "- int (length xs) \<le> - 1" "nat (int (length xs) + - 1) = length xs - 1" by linarith+
  then show ?thesis by (simp add: py_get_def py_norm_def)
qed

lemma py_set_in: "0 \<le> i \<Longrightarrow> i < int (length xs) \<Longrightarrow> py_set xs i v = Inr (xs[nat i := v])"
  by (simp add: py_set_def py_norm_def)

lemma py_fdiv_ok: "b \<noteq> 0 \<Longrightarrow> py_fdiv a b = Inr (a / real_of_int b)"
  by (simp add: py_fdiv_def)

lemma gen_chunk_x_ok:
  "N \<noteq> 1 \<Longrightarrow> gen_chunk_x W N = Inr (map (\<lambda>i. W / real_of_int (N - 1) * real_of_int i) (py_range N))"
  unfolding gen_chunk_x_def by (rule mapM_err_Inr) (simp add: py_fdiv_ok)

lemma gen_smooth_y_ok:
  assumes "length hs = nat (N + 1)"
  shows "gen_smooth_y hs N =
    Inr (map (\<lambda>i. 0.33 * (hs ! (if i = 0 then nat N else nat (i - 1)) + hs ! nat i + hs ! nat (i + 1)))
          (py_range N))"
  unfolding gen_smooth_y_def
proof (rule mapM_err_Inr)
  fix i assume "i \<in> set (py_range N)"
  then have i: "0 \<le> i" "i < N" by (simp_all add: set_py_range)
  have a: "py_get hs (i - 1) = Inr (hs ! (if i = 0 then nat N else nat (i - 1)))"
  proof (cases "i = 0")
    case True
    have "hs \<noteq> []" using assms i by auto
    moreover have "length hs - 1 = nat N" using assms i by linarith
    ultimately show ?thesis using True by (simp add: py_get_last)
  next
    case False
    then show ?thesis using assms i by (simp add: py_get_in)
  qed
  have b: "py_get hs (i + 0) = Inr (hs ! nat i)" using assms i by (simp add: py_get_in)
  have c: "py_get hs (i + 1) = Inr (hs ! nat (i + 1))" using assms i by (simp add: py_get_in)
  show "and_then (py_get hs (i - 1)) (\<lambda>a. and_then (py_get hs (i + 0)) (\<lambda>b.
          and_then (py_get hs (i + 1)) (\<lambda>c. Inr (0.33 * (a + b + c))))) =
        Inr (0.33 * (hs ! (if i = 0 then nat N else nat (i - 1)) + hs ! nat i + hs ! nat (i + 1)))"
    by (simp only: a b c and_then_Inr)
qed

lemma platform_loop:
  assumes "int k \<le> N div 2" and "N div 2 + int k < int (length ys)"
  shows "\<exists>zs. foldM_err (platform_step N hy d) (py_range (int k)) ys = Inr zs \<and>
           length zs = length ys \<and>
           (\<forall>j < length ys. zs ! j =
              (if int j \<noteq> N div 2 \<and> \<bar>int j - N div 2\<bar> \<le> int k
               then hy + d * real_of_int (int j - N div 2) else ys ! j))"
  using assms
proof (induction k)
  case 0
  then show ?case by (simp add: py_range_def)
next
  case (Suc k)
  then obtain zs where zs: "foldM_err (platform_step N hy d) (py_range (int k)) ys = Inr zs"
    "length zs = length ys"
    "\<forall>j < length ys. zs ! j =
              (if int j \<noteq> N div 2 \<and> \<bar>int j - N div 2\<bar> \<le> int k
               then hy + d * real_of_int (int j - N div 2) else ys ! j)"
    by auto
  let ?c = "N div 2"
  let ?lo = "nat (?c - (int k + 1))" and ?hi = "nat (?c + (int k + 1))"
  have lo: "0 \<le> ?c - (int k + 1)" "?c - (int k + 1) < int (length zs)"
    using Suc.prems zs(2) by auto
  have hi: "0 \<le> ?c + (int k + 1)" "?c + (int k + 1) < int (length zs)"
    using Suc.prems zs(2) by auto
  let ?zs' = "zs[?lo := hy - d * real_of_int (int k + 1), ?hi := hy + d * real_of_int (int k + 1)]"
  have step: "platform_step N hy d (int k) zs = Inr ?zs'"
    unfolding platform_step_def using lo hi by (simp add: py_set_in)
  have run: "foldM_err (platform_step N hy d) (py_range (int (Suc k))) ys = Inr ?zs'"
    by (simp only: py_range_Suc foldM_err_append zs(1) and_then_Inr foldM_err.simps step)
  have pt: "\<forall>j < length ys. ?zs' ! j =
              (if int j \<noteq> ?c \<and> \<bar>int j - ?c\<bar> \<le> int (Suc k)
               then hy + d * real_of_int (int j - ?c) else ys ! j)"
  proof (intro allI impI)
    fix j assume j: "j < length ys"
    consider "j = ?hi" | "j \<noteq> ?hi" "j = ?lo" | "j \<noteq> ?hi" "j \<noteq> ?lo" by blast
    then show "?zs' ! j = (if int j \<noteq> ?c \<and> \<bar>int j - ?c\<bar> \<le> int (Suc k)
               then hy + d * real_of_int (int j - ?c) else ys ! j)"
    proof cases
      case 1
      then have ij: "int j - ?c = int k + 1" using hi by simp
      have "?zs' ! j = hy + d * real_of_int (int k + 1)" using 1 j zs(2) by simp
      moreover have "int j \<noteq> ?c" "\<bar>int j - ?c\<bar> \<le> int (Suc k)" using ij by simp_all
      ultimately show ?thesis by (simp only: ij if_True simp_thms)
    next
      case 2
      then have ij: "int j - ?c = - (int k + 1)" using lo by simp
      have "?zs' ! j = hy - d * real_of_int (int k + 1)" using 2 j zs(2) by simp
      moreover have "hy - d * real_of_int (int k + 1) = hy + d * real_of_int (- (int k + 1))"
        by (simp add: algebra_simps)
      moreover have "int j \<noteq> ?c" "\<bar>int j - ?c\<bar> \<le> int (Suc k)" using ij by simp_all
      ultimately show ?thesis by (simp only: ij if_True simp_thms)
    next
      case 3
      then have ne: "int j \<noteq> ?c + (int k + 1)" "int j \<noteq> ?c - (int k + 1)"
        using lo hi by auto
      have "?zs' ! j = zs ! j" using 3 by simp
      also have "\<dots> = (if int j \<noteq> ?c \<and> \<bar>int j - ?c\<bar> \<le> int k
               then hy + d * real_of_int (int j - ?c) else ys ! j)"
        using zs(3) j by blast
      also have "\<dots> = (if int j \<noteq> ?c \<and> \<bar>int j - ?c\<bar> \<le> int (Suc k)
               then hy + d * real_of_int (int j - ?c) else ys ! j)"
        using ne by auto
      finally show ?thesis .
    qed
  qed
  show ?case using run pt zs(2) by simp
qed

section \<open>What terrain generation returns\<close>

lemma py_range_nat: "py_range (int (nat n)) = py_range n"
  by (simp add: py_range_def)

lemma moon_segments_ok:
  assumes "length xs = nat N" "length ys = nat N"
  shows "mapM_err (moon_segment H xs ys) (py_range (N - 1)) =
    Inr (map (\<lambda>i. (((xs ! nat i, ys ! nat i), (xs ! nat (i + 1), ys ! nat (i + 1))),
                    [(xs ! nat i, ys ! nat i), (xs ! nat (i + 1), ys ! nat (i + 1)),
                     (xs ! nat (i + 1), H), (xs ! nat i, H)])) (py_range (N - 1)))"
proof (rule mapM_err_Inr)
  fix i assume "i \<in> set (py_range (N - 1))"
  then have i: "0 \<le> i" "i < N - 1" by (simp_all add: set_py_range)
  then have "i < int (length xs)" "i + 1 < int (length xs)" "i < int (length ys)"
    "i + 1 < int (length ys)" "0 \<le> i + 1"
    using assms by linarith+
  then show "moon_segment H xs ys i =
    Inr (((xs ! nat i, ys ! nat i), (xs ! nat (i + 1), ys ! nat (i + 1))),
         [(xs ! nat i, ys ! nat i), (xs ! nat (i + 1), ys ! nat (i + 1)),
          (xs ! nat (i + 1), H), (xs ! nat i, H)])"
    unfolding moon_segment_def using i(1) by (simp add: py_get_in)
qed

lemma gen_uav_terrain_ok:
  fixes c w :: int
  assumes N: "3 \<le> N"
    and W_def: "W = VIEWPORT_W P / SCALE P"
    and H_def: "H = VIEWPORT_H P / SCALE P"
    and c_def: "c = N div 2"
    and w_def: "w = (N div 6 - 1) div 2"
    and h0_def: "h0 = fst (uniform_size 0 (H / 2) (nat (N + 1)) g)"
    and hy_def: "hy = fst (uniform (H / 2) (H * 3 / 5) (\<lambda>n. g (nat (N + 1) + n)))"
    and ang_def: "ang = (if \<not> flat then fst (uniform (- pi / 6) (pi / 6) (\<lambda>n. g (nat (N + 1) + 1 + n))) else 0)"
    and d_def: "d = tan ang * W / real_of_int (N - 1)"
  shows "\<exists>t. gen_uav_terrain P N flat g =
            Inr (t, \<lambda>n. g (nat (N + 1) + 1 + (if \<not> flat then 1 else 0) + n)) \<and>
          height t = h0[nat c := hy] \<and>
          chunk_x t = map (\<lambda>i. W / real_of_int (N - 1) * real_of_int i) (py_range N) \<and>
          length (smooth_y t) = nat N \<and>
          (\<forall>j < nat N. smooth_y t ! j =
             (if int j \<noteq> c \<and> \<bar>int j - c\<bar> \<le> w then hy + d * real_of_int (int j - c)
              else if int j = c then hy
              else 0.33 * (h0 ! (if j = 0 then nat N else j - 1) + h0 ! j + h0 ! (j + 1)))) \<and>
          helipad_y t = hy \<and>
          helipad_x1 t = W / real_of_int (N - 1) * real_of_int (c - w) \<and>
          helipad_x2 t = W / real_of_int (N - 1) * real_of_int (c + w) \<and>
          length (moon_edges t) = nat (N - 1)"
proof -
  let ?g1 = "\<lambda>n. g (nat (N + 1) + n)"
  let ?g2 = "\<lambda>n. g (nat (N + 1) + 1 + n)"
  let ?g3 = "\<lambda>n. g (nat (N + 1) + 1 + (if \<not> flat then 1 else 0) + n)"
  let ?cx = "map (\<lambda>i. W / real_of_int (N - 1) * real_of_int i) (py_range N)"
  let ?sy0 = "map (\<lambda>i. 0.33 * (h0 ! (if i = 0 then nat N else nat (i - 1)) + h0 ! nat i + h0 ! nat (i + 1)))
          (py_range N)"
  have wb: "- 1 \<le> w" "0 \<le> c - w" "c + w < N" "c - w < N" "0 \<le> c + w" "0 \<le> c" "c < N"
    unfolding c_def w_def using N by linarith+
  have us: "uniform_size 0 (H / 2) (nat (N + 1)) g = (h0, ?g1)"
    by (simp add: h0_def uniform_size_def)
  have len_h0: "length h0 = nat (N + 1)"
    by (simp add: h0_def uniform_size_def)
  have cx: "gen_chunk_x W N = Inr ?cx"
    using N by (intro gen_chunk_x_ok) simp
  have sy0: "gen_smooth_y h0 N = Inr ?sy0"
    using len_h0 by (rule gen_smooth_y_ok)
  have u1: "uniform (H / 2) (H * 3 / 5) ?g1 = (hy, ?g2)"
    by (simp add: hy_def uniform_def)
  have hs: "py_set h0 (c + 0) hy = Inr (h0[nat c := hy])"
    using wb len_h0 by (simp add: py_set_in)
  have hg: "py_get (h0[nat c := hy]) (c + 0) = Inr hy"
    using wb len_h0 by (simp add: py_get_in)
  have x1: "py_get ?cx (c - w) = Inr (W / real_of_int (N - 1) * real_of_int (c - w))"
    using wb by (simp add: py_get_in nth_py_range)
  have x2: "py_get ?cx (c + w) = Inr (W / real_of_int (N - 1) * real_of_int (c + w))"
    using wb by (simp add: py_get_in nth_py_range)
  have sy1: "py_set ?sy0 (c + 0) hy = Inr (?sy0[nat c := hy])"
    using wb by (simp add: py_set_in)
  have ua: "(if \<not> flat then uniform (- pi / 6) (pi / 6) ?g2 else (0, ?g2)) = (ang, ?g3)"
    by (simp add: ang_def uniform_def)
  have dh: "py_fdiv (tan ang * W) (N - 1) = Inr d"
    using N by (simp add: py_fdiv_ok d_def)
  have "int (nat w) \<le> N div 2" "N div 2 + int (nat w) < int (length (?sy0[nat c := hy]))"
    using wb unfolding c_def by simp_all
  from platform_loop [OF this, of hy d]
  obtain zs where zs:
    "foldM_err (platform_step N hy d) (py_range w) (?sy0[nat c := hy]) = Inr zs"
    "length zs = nat N"
    "\<forall>j < nat N. zs ! j = (if int j \<noteq> c \<and> \<bar>int j - c\<bar> \<le> int (nat w)
        then hy + d * real_of_int (int j - c) else (?sy0[nat c := hy]) ! j)"
    unfolding py_range_nat c_def by auto
  have segs: "mapM_err (moon_segment H ?cx zs) (py_range (N - 1)) =
    Inr (map (\<lambda>i. (((?cx ! nat i, zs ! nat i), (?cx ! nat (i + 1), zs ! nat (i + 1))),
                    [(?cx ! nat i, zs ! nat i), (?cx ! nat (i + 1), zs ! nat (i + 1)),
                     (?cx ! nat (i + 1), H), (?cx ! nat i, H)])) (py_range (N - 1)))"
    by (rule moon_segments_ok) (simp_all add: zs(2))
  have nv: "\<not> N + 1 < 0" using N by simp
  have run: "gen_uav_terrain P N flat g =
    Inr (\<lparr>height = h0[nat c := hy], chunk_x = ?cx, smooth_y = zs,
          helipad_x1 = W / real_of_int (N - 1) * real_of_int (c - w),
          helipad_x2 = W / real_of_int (N - 1) * real_of_int (c + w),
          helipad_y = hy,
          moon_edges = map fst (map (\<lambda>i. (((?cx ! nat i, zs ! nat i), (?cx ! nat (i + 1), zs ! nat (i + 1))),
                    [(?cx ! nat i, zs ! nat i), (?cx ! nat (i + 1), zs ! nat (i + 1)),
                     (?cx ! nat (i + 1), H), (?cx ! nat i, H)])) (py_range (N - 1))),
          sky_polys = map snd (map (\<lambda>i. (((?cx ! nat i, zs ! nat i), (?cx ! nat (i + 1), zs ! nat (i + 1))),
                    [(?cx ! nat i, zs ! nat i), (?cx ! nat (i + 1), zs ! nat (i + 1)),
                     (?cx ! nat (i + 1), H), (?cx ! nat i, H)])) (py_range (N - 1)))\<rparr>, ?g3)"
    unfolding gen_uav_terrain_def Let_def
    unfolding W_def [symmetric] H_def [symmetric] c_def [symmetric] w_def [symmetric]
    by (simp only: nv if_False us cx sy0 u1 hs hg x1 x2 sy1 ua dh zs(1) segs
          and_then_Inr prod.case)
  have pt: "\<forall>j < nat N. zs ! j =
             (if int j \<noteq> c \<and> \<bar>int j - c\<bar> \<le> w then hy + d * real_of_int (int j - c)
              else if int j = c then hy
              else 0.33 * (h0 ! (if j = 0 then nat N else j - 1) + h0 ! j + h0 ! (j + 1)))"
  proof (intro allI impI)
    fix j assume j: "j < nat N"
    have eqw: "(int j \<noteq> c \<and> \<bar>int j - c\<bar> \<le> int (nat w)) = (int j \<noteq> c \<and> \<bar>int j - c\<bar> \<le> w)"
      using wb(1) by linarith
    have base: "(?sy0[nat c := hy]) ! j = (if int j = c then hy
              else 0.33 * (h0 ! (if j = 0 then nat N else j - 1) + h0 ! j + h0 ! (j + 1)))"
    proof (cases "int j = c")
      case True
      then have "j = nat c" by simp
      then show ?thesis using True j by simp
    next
      case False
      then have "j \<noteq> nat c" using wb by auto
      moreover have "nat (int j - 1) = j - 1" "nat (int j + 1) = j + 1" by simp_all
      ultimately show ?thesis using False j by (simp add: nth_py_range)
    qed
    show "zs ! j =
             (if int j \<noteq> c \<and> \<bar>int j - c\<bar> \<le> w then hy + d * real_of_int (int j - c)
              else if int j = c then hy
              else 0.33 * (h0 ! (if j = 0 then nat N else j - 1) + h0 ! j + h0 ! (j + 1)))"
      using zs(3) j base eqw by simp
  qed
  show ?thesis
    apply (rule exI)
    apply (intro conjI)
            apply (rule run)
    using pt zs(2) by simp_all
qed

lemma upt_2: "[0..<2] = [0, Suc 0]"
  by (simp add: upt_rec)

lemma gen_uav_terrain_small:
  assumes "N \<le> 2"
  shows "gen_uav_terrain P N flat g =
    Inl (if N < - 1 then ValueError else if N = 1 then ZeroDivisionError else IndexError)"
proof -
  consider "N < - 1" | "N = - 1" | "N = 0" | "N = 1" | "N = 2" using assms by linarith
  then show ?thesis
  proof cases
    case 1
    then show ?thesis by (simp add: gen_uav_terrain_def)
  next
    case 2
    then show ?thesis
      by (simp add: gen_uav_terrain_def uniform_size_def uniform_def gen_chunk_x_def
          gen_smooth_y_def py_range_def py_set_def py_norm_def)
  next
    case 3
    then show ?thesis
      by (simp add: gen_uav_terrain_def uniform_size_def uniform_def gen_chunk_x_def
          gen_smooth_y_def py_range_def py_set_def py_get_def py_norm_def)
  next
    case 4
    then show ?thesis
      by (simp add: gen_uav_terrain_def uniform_size_def gen_chunk_x_def
          py_range_def py_fdiv_def)
  next
    case 5
    then show ?thesis
      by (simp add: gen_uav_terrain_def uniform_size_def uniform_def gen_chunk_x_def
          gen_smooth_y_def py_range_def py_set_def py_get_def py_norm_def py_fdiv_def upt_2)
  qed
qed

lemma unit_samples_quarter: "unit_samples quarter_rng"
proof -
  have "\<And>n. real (n mod 4) < 4"
    by (metis mod_less_divisor of_nat_less_iff of_nat_numeral zero_less_numeral)
  then show ?thesis by (simp add: unit_samples_def quarter_rng_def)
qed

lemma params_ok_gym: "params_ok gym_params"
  by (simp add: params_ok_def gym_params_def)

lemma uniform_range:
  assumes "unit_samples g" "low \<le> high"
  shows "low \<le> fst (uniform low high g)" "fst (uniform low high g) \<le> high"
proof -
  have u: "0 \<le> g 0" "g 0 \<le> 1" using assms(1) by (auto simp: unit_samples_def intro: less_imp_le)
  have "0 \<le> (high - low) * g 0" using u assms(2) by simp
  then show "low \<le> fst (uniform low high g)" by (simp add: uniform_def)
  have "(high - low) * g 0 \<le> (high - low) * 1"
    using u assms(2) by (intro mult_left_mono) simp_all
  then show "fst (uniform low high g) \<le> high" by (simp add: uniform_def)
qed

lemma platform_nodes:
  fixes c w :: int and sm :: "real list"
  assumes sm: "\<forall>j < nat N. sm ! j =
       (if int j \<noteq> c \<and> \<bar>int j - c\<bar> \<le> w then hy + d * real_of_int (int j - c)
        else if int j = c then hy else rest j)"
    and wb: "0 \<le> c - w" "c + w < N"
    and i: "1 \<le> i" "i \<le> w"
  shows "sm ! nat (c - i) = hy - real_of_int i * d" "sm ! nat (c + i) = hy + real_of_int i * d"
proof -
  have lo: "nat (c - i) < nat N" "int (nat (c - i)) - c = - i"
    "int (nat (c - i)) \<noteq> c \<and> \<bar>int (nat (c - i)) - c\<bar> \<le> w"
    using i wb by linarith+
  have hi: "nat (c + i) < nat N" "int (nat (c + i)) - c = i"
    "int (nat (c + i)) \<noteq> c \<and> \<bar>int (nat (c + i)) - c\<bar> \<le> w"
    using i wb by linarith+
  have "sm ! nat (c - i) = hy + d * real_of_int (int (nat (c - i)) - c)"
    using sm [rule_format, OF lo(1)] lo(3) by (simp only: simp_thms if_True)
  then show "sm ! nat (c - i) = hy - real_of_int i * d"
    by (simp only: lo(2)) (simp add: algebra_simps)
  have "sm ! nat (c + i) = hy + d * real_of_int (int (nat (c + i)) - c)"
    using sm [rule_format, OF hi(1)] hi(3) by (simp only: simp_thms if_True)
  then show "sm ! nat (c + i) = hy + real_of_int i * d"
    by (simp only: hi(2)) (simp add: algebra_simps)
qed

lemma platform_centre:
  fixes c w :: int and sm :: "real list"
  assumes sm: "\<forall>j < nat N. sm ! j =
       (if int j \<noteq> c \<and> \<bar>int j - c\<bar> \<le> w then hy + d * real_of_int (int j - c)
        else if int j = c then hy else rest j)"
    and wb: "0 \<le> c" "c < N"
  shows "sm ! nat c = hy"
proof -
  have "nat c < nat N" "int (nat c) = c" using wb by linarith+
  then show ?thesis using sm by simp
qed

section \<open>The platform is a straight line\<close>

text \<open>
  Claim C1. Whenever the half-width \<open>w = (N // 6 - 1) // 2\<close> is positive, generation
  returns, and with \<open>d = tan(angle) * (W / (N - 1))\<close> the smoothed height at node
  \<open>centre - i\<close> is the platform elevation minus \<open>i * d\<close> and at \<open>centre + i\<close> the elevation
  plus \<open>i * d\<close>, for every \<open>i\<close> from 1 to \<open>w\<close>. With \<open>flat_platform\<close> the angle is 0 and
  every node of the platform range has the platform elevation; otherwise the angle is the
  value \<open>uniform(-pi/6, pi/6)\<close> returns, which lies in that interval.
\<close>

theorem platform_is_straight_line:
  assumes "0 < (N div 6 - 1) div 2"
  shows "\<exists>t g' ang.
     gen_uav_terrain P N flat g = Inr (t, g') \<and>
     ang = (if flat then 0 else fst (uniform (- pi / 6) (pi / 6) (\<lambda>n. g (nat (N + 1) + 1 + n)))) \<and>
     (\<forall>i \<in> {1 .. (N div 6 - 1) div 2}.
        smooth_y t ! nat (N div 2 - i) =
          helipad_y t - real_of_int i * (tan ang * (VIEWPORT_W P / SCALE P / real_of_int (N - 1))) \<and>
        smooth_y t ! nat (N div 2 + i) =
          helipad_y t + real_of_int i * (tan ang * (VIEWPORT_W P / SCALE P / real_of_int (N - 1)))) \<and>
     (flat \<longrightarrow> (\<forall>j \<in> {N div 2 - (N div 6 - 1) div 2 .. N div 2 + (N div 6 - 1) div 2}.
        smooth_y t ! nat j = helipad_y t)) \<and>
     (unit_samples g \<longrightarrow> - pi / 6 \<le> ang \<and> ang \<le> pi / 6)"
proof -
  define c where "c = N div 2"
  define w where "w = (N div 6 - 1) div 2"
  define W where "W = VIEWPORT_W P / SCALE P"
  define H where "H = VIEWPORT_H P / SCALE P"
  define h0 where "h0 = fst (uniform_size 0 (H / 2) (nat (N + 1)) g)"
  define hy where "hy = fst (uniform (H / 2) (H * 3 / 5) (\<lambda>n. g (nat (N + 1) + n)))"
  define ang where "ang = (if \<not> flat then fst (uniform (- pi / 6) (pi / 6) (\<lambda>n. g (nat (N + 1) + 1 + n))) else 0)"
  define d where "d = tan ang * W / real_of_int (N - 1)"
  have N: "3 \<le> N" using assms by linarith
  have wb: "0 \<le> c - w" "c + w < N" "0 \<le> c" "c < N" "0 < w"
    unfolding c_def w_def using N assms by linarith+
  from gen_uav_terrain_ok [OF N W_def H_def c_def w_def h0_def hy_def ang_def d_def]
  obtain t g' where t: "gen_uav_terrain P N flat g = Inr (t, g')"
    and hy: "helipad_y t = hy"
    and sm0: "\<forall>j < nat N. smooth_y t ! j =
       (if int j \<noteq> c \<and> \<bar>int j - c\<bar> \<le> w then hy + d * real_of_int (int j - c)
        else if int j = c then hy
        else 0.33 * (h0 ! (if j = 0 then nat N else j - 1) + h0 ! j + h0 ! (j + 1)))"
    by blast
  note sm = sm0 [folded hy]
  have d_eq: "tan ang * (W / real_of_int (N - 1)) = d" by (simp add: d_def)
  have line: "smooth_y t ! nat (c - i) = helipad_y t - real_of_int i * (tan ang * (W / real_of_int (N - 1))) \<and>
        smooth_y t ! nat (c + i) = helipad_y t + real_of_int i * (tan ang * (W / real_of_int (N - 1)))"
    if i: "i \<in> {1 .. w}" for i
  proof -
    have i': "1 \<le> i" "i \<le> w" using i by simp_all
    show ?thesis
      unfolding d_eq using platform_nodes [OF sm wb(1,2) i'] by simp
  qed
  have flat_all: "smooth_y t ! nat j = helipad_y t"
    if "flat" and j: "j \<in> {c - w .. c + w}" for j
  proof -
    have d0: "d = 0" using \<open>flat\<close> by (simp add: d_def ang_def)
    consider "j = c" | i where "1 \<le> i" "i \<le> w" "j = c - i" | i where "1 \<le> i" "i \<le> w" "j = c + i"
    proof -
      have "j = c \<or> (1 \<le> c - j \<and> c - j \<le> w \<and> j = c - (c - j)) \<or> (1 \<le> j - c \<and> j - c \<le> w \<and> j = c + (j - c))"
        using j by auto
      then show ?thesis using that by blast
    qed
    then show ?thesis
    proof cases
      case 1
      then show ?thesis using platform_centre [OF sm wb(3,4)] by simp
    next
      case 2
      then show ?thesis using platform_nodes(1) [OF sm wb(1,2) 2(1,2)] d0 by simp
    next
      case 3
      then show ?thesis using platform_nodes(2) [OF sm wb(1,2) 3(1,2)] d0 by simp
    qed
  qed
  have rng: "- pi / 6 \<le> ang \<and> ang \<le> pi / 6" if "unit_samples g"
  proof (cases flat)
    case True
    then show ?thesis by (simp add: ang_def)
  next
    case False
    have "unit_samples (\<lambda>n. g (nat (N + 1) + 1 + n))"
      using that by (simp add: unit_samples_def)
    from uniform_range [OF this, of "- pi / 6" "pi / 6"] False show ?thesis by (simp add: ang_def)
  qed
  have angeq: "ang = (if flat then 0 else fst (uniform (- pi / 6) (pi / 6) (\<lambda>n. g (nat (N + 1) + 1 + n))))"
    by (simp add: ang_def)
  have "gen_uav_terrain P N flat g = Inr (t, g') \<and>
     ang = (if flat then 0 else fst (uniform (- pi / 6) (pi / 6) (\<lambda>n. g (nat (N + 1) + 1 + n)))) \<and>
     (\<forall>i \<in> {1 .. w}.
        smooth_y t ! nat (c - i) = helipad_y t - real_of_int i * (tan ang * (W / real_of_int (N - 1))) \<and>
        smooth_y t ! nat (c + i) = helipad_y t + real_of_int i * (tan ang * (W / real_of_int (N - 1)))) \<and>
     (flat \<longrightarrow> (\<forall>j \<in> {c - w .. c + w}. smooth_y t ! nat j = helipad_y t)) \<and>
     (unit_samples g \<longrightarrow> - pi / 6 \<le> ang \<and> ang \<le> pi / 6)"
    using t angeq line flat_all rng by blast
  then show ?thesis unfolding c_def w_def W_def by blast
qed

theorem platform_is_straight_line_witness:
  "(0::int) < (30 div 6 - 1) div 2 \<and> unit_samples quarter_rng \<and>
   (\<exists>t g' ang. gen_uav_terrain gym_params 30 False quarter_rng = Inr (t, g') \<and>
      ang = fst (uniform (- pi / 6) (pi / 6) (\<lambda>n. quarter_rng (nat (30 + 1) + 1 + n))) \<and>
      smooth_y t ! 14 = helipad_y t - 1 * (tan ang * (VIEWPORT_W gym_params / SCALE gym_params / 29)) \<and>
      smooth_y t ! 16 = helipad_y t + 1 * (tan ang * (VIEWPORT_W gym_params / SCALE gym_params / 29)) \<and>
      smooth_y t ! 13 = helipad_y t - 2 * (tan ang * (VIEWPORT_W gym_params / SCALE gym_params / 29)) \<and>
      smooth_y t ! 17 = helipad_y t + 2 * (tan ang * (VIEWPORT_W gym_params / SCALE gym_params / 29)) \<and>
      - pi / 6 \<le> ang \<and> ang \<le> pi / 6)"
proof -
  have h: "(0::int) < (30 div 6 - 1) div 2" by simp
  have u: "unit_samples quarter_rng" by (rule unit_samples_quarter)
  from platform_is_straight_line [OF h, of gym_params False quarter_rng]
  obtain t g' ang where t: "gen_uav_terrain gym_params 30 False quarter_rng = Inr (t, g')"
    and a: "ang = fst (uniform (- pi / 6) (pi / 6) (\<lambda>n. quarter_rng (nat (30 + 1) + 1 + n)))"
    and l: "\<forall>i \<in> {1 .. (30 div 6 - 1) div 2}.
        smooth_y t ! nat (30 div 2 - i) =
          helipad_y t - real_of_int i * (tan ang * (VIEWPORT_W gym_params / SCALE gym_params / real_of_int (30 - 1))) \<and>
        smooth_y t ! nat (30 div 2 + i) =
          helipad_y t + real_of_int i * (tan ang * (VIEWPORT_W gym_params / SCALE gym_params / real_of_int (30 - 1)))"
    and r: "unit_samples quarter_rng \<longrightarrow> - pi / 6 \<le> ang \<and> ang \<le> pi / 6"
    by auto
  have "(1::int) \<in> {1 .. (30 div 6 - 1) div 2}" "(2::int) \<in> {1 .. (30 div 6 - 1) div 2}" by simp_all
  from l [rule_format, OF this(1)] l [rule_format, OF this(2)]
  have "smooth_y t ! 14 = helipad_y t - 1 * (tan ang * (VIEWPORT_W gym_params / SCALE gym_params / 29))"
    "smooth_y t ! 16 = helipad_y t + 1 * (tan ang * (VIEWPORT_W gym_params / SCALE gym_params / 29))"
    "smooth_y t ! 13 = helipad_y t - 2 * (tan ang * (VIEWPORT_W gym_params / SCALE gym_params / 29))"
    "smooth_y t ! 17 = helipad_y t + 2 * (tan ang * (VIEWPORT_W gym_params / SCALE gym_params / 29))"
    by simp_all
  with h u t a r show ?thesis by blast
qed

lemma uniform_size_range:
  assumes "unit_samples g" "low \<le> high"
  shows "\<forall>h \<in> set (fst (uniform_size low high k g)). low \<le> h \<and> h \<le> high"
proof
  fix h assume "h \<in> set (fst (uniform_size low high k g))"
  then obtain j where h: "h = low + (high - low) * g j" by (auto simp: uniform_size_def)
  have u: "0 \<le> g j" "g j \<le> 1" using assms(1) by (auto simp: unit_samples_def intro: less_imp_le)
  have "0 \<le> (high - low) * g j" using u assms(2) by simp
  moreover have "(high - low) * g j \<le> (high - low) * 1"
    using u assms(2) by (intro mult_left_mono) simp_all
  ultimately show "low \<le> h \<and> h \<le> high" unfolding h by simp
qed

section \<open>The platform elevation\<close>

text \<open>
  Claim C6. The elevation recorded as \<open>helipad_y\<close> is the value
  \<open>uniform(H/2, H*3/5)\<close> returns on the sample that follows the \<open>N + 1\<close> height
  samples, so it lies in \<open>[H/2, 3H/5]\<close>; it does not depend on the samples the smoothed
  profile is computed from, and it replaces the smoothed value at the centre node.
\<close>

theorem helipad_y_drawn_in_range:
  assumes N: "3 \<le> N" and P: "params_ok P" and g: "unit_samples g"
  shows "\<exists>t g'. gen_uav_terrain P N flat g = Inr (t, g') \<and>
     helipad_y t = fst (uniform (VIEWPORT_H P / SCALE P / 2) (VIEWPORT_H P / SCALE P * 3 / 5)
                         (\<lambda>n. g (nat (N + 1) + n))) \<and>
     helipad_y t = VIEWPORT_H P / SCALE P / 2 +
        (VIEWPORT_H P / SCALE P * 3 / 5 - VIEWPORT_H P / SCALE P / 2) * g (nat (N + 1)) \<and>
     VIEWPORT_H P / SCALE P / 2 \<le> helipad_y t \<and>
     helipad_y t \<le> 3 * (VIEWPORT_H P / SCALE P) / 5 \<and>
     smooth_y t ! nat (N div 2) = helipad_y t \<and>
     height t ! nat (N div 2) = helipad_y t \<and>
     (\<forall>g2 t2 g2'. g2 (nat (N + 1)) = g (nat (N + 1)) \<and> gen_uav_terrain P N flat g2 = Inr (t2, g2')
        \<longrightarrow> helipad_y t2 = helipad_y t)"
proof -
  define c where "c = N div 2"
  define w where "w = (N div 6 - 1) div 2"
  define W where "W = VIEWPORT_W P / SCALE P"
  define H where "H = VIEWPORT_H P / SCALE P"
  define h0 where "h0 = fst (uniform_size 0 (H / 2) (nat (N + 1)) g)"
  define hy where "hy = fst (uniform (H / 2) (H * 3 / 5) (\<lambda>n. g (nat (N + 1) + n)))"
  define ang where "ang = (if \<not> flat then fst (uniform (- pi / 6) (pi / 6) (\<lambda>n. g (nat (N + 1) + 1 + n))) else 0)"
  define d where "d = tan ang * W / real_of_int (N - 1)"
  have wb: "0 \<le> c" "c < N" unfolding c_def using N by linarith+
  from gen_uav_terrain_ok [OF N W_def H_def c_def w_def h0_def hy_def ang_def d_def]
  obtain t g' where t: "gen_uav_terrain P N flat g = Inr (t, g')"
    and hy: "helipad_y t = hy"
    and ht: "height t = h0[nat c := hy]"
    and sm0: "\<forall>j < nat N. smooth_y t ! j =
       (if int j \<noteq> c \<and> \<bar>int j - c\<bar> \<le> w then hy + d * real_of_int (int j - c)
        else if int j = c then hy
        else 0.33 * (h0 ! (if j = 0 then nat N else j - 1) + h0 ! j + h0 ! (j + 1)))"
    by blast
  have H0: "0 < H" using P by (simp add: params_ok_def H_def)
  have formula: "hy = H / 2 + (H * 3 / 5 - H / 2) * g (nat (N + 1))"
    by (simp add: hy_def uniform_def)
  have "unit_samples (\<lambda>n. g (nat (N + 1) + n))" using g by (simp add: unit_samples_def)
  from uniform_range [OF this, of "H / 2" "H * 3 / 5"] H0
  have rng: "H / 2 \<le> hy" "hy \<le> 3 * H / 5" by (simp_all add: hy_def)
  have centre: "smooth_y t ! nat c = hy"
    using platform_centre [OF sm0 wb] .
  have len: "length h0 = nat (N + 1)" by (simp add: h0_def uniform_size_def)
  have hc: "height t ! nat c = hy" using ht len wb by simp
  have indep: "helipad_y t2 = hy"
    if "g2 (nat (N + 1)) = g (nat (N + 1))" "gen_uav_terrain P N flat g2 = Inr (t2, g2')"
    for g2 t2 g2'
  proof -
    from gen_uav_terrain_ok [OF N W_def H_def c_def w_def refl refl refl refl, of flat g2] that(2)
    have "helipad_y t2 = fst (uniform (H / 2) (H * 3 / 5) (\<lambda>n. g2 (nat (N + 1) + n)))"
      by auto
    then show ?thesis using that(1) by (simp add: hy_def uniform_def)
  qed
  have "gen_uav_terrain P N flat g = Inr (t, g') \<and>
     helipad_y t = fst (uniform (H / 2) (H * 3 / 5) (\<lambda>n. g (nat (N + 1) + n))) \<and>
     helipad_y t = H / 2 + (H * 3 / 5 - H / 2) * g (nat (N + 1)) \<and>
     H / 2 \<le> helipad_y t \<and> helipad_y t \<le> 3 * H / 5 \<and>
     smooth_y t ! nat c = helipad_y t \<and> height t ! nat c = helipad_y t \<and>
     (\<forall>g2 t2 g2'. g2 (nat (N + 1)) = g (nat (N + 1)) \<and> gen_uav_terrain P N flat g2 = Inr (t2, g2')
        \<longrightarrow> helipad_y t2 = helipad_y t)"
    unfolding hy using t hy_def formula rng centre hc indep by blast
  then show ?thesis unfolding c_def H_def by blast
qed

theorem helipad_y_drawn_in_range_witness:
  "(3::int) \<le> 90 \<and> params_ok gym_params \<and> unit_samples quarter_rng \<and>
   (\<exists>t g'. gen_uav_terrain gym_params 90 False quarter_rng = Inr (t, g') \<and>
      helipad_y t = 23 / 3 \<and> smooth_y t ! 45 = 23 / 3 \<and>
      VIEWPORT_H gym_params / SCALE gym_params / 2 \<le> helipad_y t \<and>
      helipad_y t \<le> 3 * (VIEWPORT_H gym_params / SCALE gym_params) / 5)"
proof -
  have h: "(3::int) \<le> 90" by simp
  have q: "quarter_rng (nat (90 + 1)) = 3 / 4" by (simp add: quarter_rng_def)
  from helipad_y_drawn_in_range [OF h params_ok_gym unit_samples_quarter, of False]
  obtain t g' where "gen_uav_terrain gym_params 90 False quarter_rng = Inr (t, g')"
    "helipad_y t = VIEWPORT_H gym_params / SCALE gym_params / 2 +
        (VIEWPORT_H gym_params / SCALE gym_params * 3 / 5 - VIEWPORT_H gym_params / SCALE gym_params / 2)
          * quarter_rng (nat (90 + 1))"
    "VIEWPORT_H gym_params / SCALE gym_params / 2 \<le> helipad_y t"
    "helipad_y t \<le> 3 * (VIEWPORT_H gym_params / SCALE gym_params) / 5"
    "smooth_y t ! nat (90 div 2) = helipad_y t"
    by blast
  moreover from this(2) have "helipad_y t = 23 / 3"
    unfolding q by (simp add: gym_params_def)
  ultimately show ?thesis using h params_ok_gym unit_samples_quarter by auto
qed

section \<open>The height samples\<close>

text \<open>
  Claim C4, as stated: exactly \<open>N\<close> height samples are drawn. It fails: for 30 nodes the
  array \<open>height\<close> has 31 entries, and after the elevation draw the generator stands at
  sample 32.
\<close>

theorem height_samples_counterexample:
  "\<not> isl (gen_uav_terrain gym_params 30 True quarter_rng) \<and>
   length (height (fst (projr (gen_uav_terrain gym_params 30 True quarter_rng)))) = 31 \<and>
   snd (projr (gen_uav_terrain gym_params 30 True quarter_rng)) 0 = quarter_rng 32"
proof -
  have N: "(3::int) \<le> 30" by simp
  from gen_uav_terrain_ok [OF N refl refl refl refl refl refl refl refl, of gym_params True quarter_rng]
  obtain t where t: "gen_uav_terrain gym_params 30 True quarter_rng =
       Inr (t, \<lambda>n. quarter_rng (nat (30 + 1) + 1 + (if \<not> True then 1 else 0) + n))"
    and h: "height t = (fst (uniform_size 0 (VIEWPORT_H gym_params / SCALE gym_params / 2) (nat (30 + 1)) quarter_rng))
         [nat (30 div 2) := fst (uniform (VIEWPORT_H gym_params / SCALE gym_params / 2)
             (VIEWPORT_H gym_params / SCALE gym_params * 3 / 5) (\<lambda>n. quarter_rng (nat (30 + 1) + n)))]"
    by blast
  have "length (height t) = 31" unfolding h by (simp add: uniform_size_def)
  then show ?thesis unfolding t by simp
qed

text \<open>
  Claim C4, amended. Whenever generation completes (\<open>N \<ge> 3\<close>), exactly \<open>N + 1\<close> height
  samples are drawn, each in \<open>[0, H/2]\<close>; \<open>height\<close> holds them, its centre entry then
  replaced by the platform elevation, and the generator is left after the \<open>N + 1\<close>
  samples, the elevation sample and, when the platform is not flat, the angle sample.
\<close>

theorem height_samples_drawn:
  assumes N: "3 \<le> N" and P: "params_ok P" and g: "unit_samples g"
  shows "\<exists>t g' hs. gen_uav_terrain P N flat g = Inr (t, g') \<and>
     hs = fst (uniform_size 0 (VIEWPORT_H P / SCALE P / 2) (nat (N + 1)) g) \<and>
     length hs = nat N + 1 \<and>
     (\<forall>h \<in> set hs. 0 \<le> h \<and> h \<le> VIEWPORT_H P / SCALE P / 2) \<and>
     height t = hs[nat (N div 2) := helipad_y t] \<and>
     g' = (\<lambda>n. g (nat N + 1 + 1 + (if flat then 0 else 1) + n))"
proof -
  define H where "H = VIEWPORT_H P / SCALE P"
  define h0 where "h0 = fst (uniform_size 0 (H / 2) (nat (N + 1)) g)"
  from gen_uav_terrain_ok [OF N refl H_def refl refl h0_def refl refl refl, where flat = flat]
  obtain t where t: "gen_uav_terrain P N flat g =
       Inr (t, \<lambda>n. g (nat (N + 1) + 1 + (if \<not> flat then 1 else 0) + n))"
    and h: "height t = h0[nat (N div 2) := fst (uniform (H / 2) (H * 3 / 5) (\<lambda>n. g (nat (N + 1) + n)))]"
    and hy: "helipad_y t = fst (uniform (H / 2) (H * 3 / 5) (\<lambda>n. g (nat (N + 1) + n)))"
    by blast
  have H0: "0 \<le> H / 2" using P by (simp add: params_ok_def H_def)
  have n1: "nat (N + 1) = nat N + 1" using N by linarith
  have len: "length h0 = nat N + 1" by (simp add: h0_def uniform_size_def n1)
  have rng: "\<forall>h \<in> set h0. 0 \<le> h \<and> h \<le> H / 2"
    unfolding h0_def using uniform_size_range [OF g H0] .
  have g': "(\<lambda>n. g (nat (N + 1) + 1 + (if \<not> flat then 1 else 0) + n)) =
     (\<lambda>n. g (nat N + 1 + 1 + (if flat then 0 else 1) + n))"
    by (simp add: n1)
  have "gen_uav_terrain P N flat g = Inr (t, \<lambda>n. g (nat N + 1 + 1 + (if flat then 0 else 1) + n)) \<and>
     h0 = fst (uniform_size 0 (H / 2) (nat (N + 1)) g) \<and>
     length h0 = nat N + 1 \<and> (\<forall>h \<in> set h0. 0 \<le> h \<and> h \<le> H / 2) \<and>
     height t = h0[nat (N div 2) := helipad_y t]"
    using t h hy len rng h0_def unfolding g' by simp
  then show ?thesis unfolding H_def by blast
qed

theorem height_samples_drawn_witness:
  "(3::int) \<le> 30 \<and> params_ok gym_params \<and> unit_samples quarter_rng \<and>
   (\<exists>t g' hs. gen_uav_terrain gym_params 30 True quarter_rng = Inr (t, g') \<and>
     hs = fst (uniform_size 0 (VIEWPORT_H gym_params / SCALE gym_params / 2) (nat (30 + 1)) quarter_rng) \<and>
     length hs = 31 \<and> height t = hs[15 := helipad_y t] \<and> g' 0 = quarter_rng 32)"
proof -
  have h: "(3::int) \<le> 30" by simp
  from height_samples_drawn [OF h params_ok_gym unit_samples_quarter, of True]
  obtain t g' hs where "gen_uav_terrain gym_params 30 True quarter_rng = Inr (t, g')"
    "hs = fst (uniform_size 0 (VIEWPORT_H gym_params / SCALE gym_params / 2) (nat (30 + 1)) quarter_rng)"
    "length hs = nat 30 + 1" "height t = hs[nat (30 div 2) := helipad_y t]"
    "g' = (\<lambda>n. quarter_rng (nat 30 + 1 + 1 + (if True then 0 else 1) + n))"
    by blast
  moreover from this(3,4,5) have "length hs = 31" "height t = hs[15 := helipad_y t]" "g' 0 = quarter_rng 32"
    by simp_all
  ultimately show ?thesis using h params_ok_gym unit_samples_quarter by blast
qed

section \<open>Node counts too small for a platform\<close>

text \<open>
  Claim C5, as stated: a node count whose half-width is zero makes generation fail with
  an error. It fails: for 6 nodes the half-width is 0 and generation returns a terrain
  whose two platform bounds coincide.
\<close>

theorem no_validation_counterexample:
  "(6 div 6 - 1) div 2 = (0::int) \<and>
   \<not> isl (gen_uav_terrain gym_params 6 True quarter_rng) \<and>
   helipad_x1 (fst (projr (gen_uav_terrain gym_params 6 True quarter_rng))) =
   helipad_x2 (fst (projr (gen_uav_terrain gym_params 6 True quarter_rng)))"
proof -
  have N: "(3::int) \<le> 6" by simp
  from gen_uav_terrain_ok [OF N refl refl refl refl refl refl refl refl, of gym_params True quarter_rng]
  obtain t where t: "gen_uav_terrain gym_params 6 True quarter_rng =
       Inr (t, \<lambda>n. quarter_rng (nat (6 + 1) + 1 + (if \<not> True then 1 else 0) + n))"
    and x: "helipad_x1 t = VIEWPORT_W gym_params / SCALE gym_params / real_of_int (6 - 1) *
              real_of_int (6 div 2 - (6 div 6 - 1) div 2)"
       "helipad_x2 t = VIEWPORT_W gym_params / SCALE gym_params / real_of_int (6 - 1) *
              real_of_int (6 div 2 + (6 div 6 - 1) div 2)"
    by blast
  have "helipad_x1 t = helipad_x2 t" unfolding x by simp
  then show ?thesis unfolding t by simp
qed

text \<open>
  Claim C5, amended. Generation checks nothing about the node count. It raises only for
  \<open>N \<le> 2\<close>, from the sampling, the division and the indexing themselves; for every
  \<open>N \<ge> 3\<close> it returns, and when the half-width is zero or negative only the centre node
  carries the platform elevation, every other node keeps its three-point average, and the
  platform bounds coincide (half-width 0) or are in reverse order (half-width \<open>-1\<close>).
\<close>

theorem generation_validates_nothing:
  assumes P: "params_ok P"
  shows "(N \<le> 2 \<longrightarrow>
      gen_uav_terrain P N flat g =
        Inl (if N < - 1 then ValueError else if N = 1 then ZeroDivisionError else IndexError)) \<and>
    (3 \<le> N \<longrightarrow>
      (\<exists>t g'. gen_uav_terrain P N flat g = Inr (t, g') \<and>
         ((N div 6 - 1) div 2 = 0 \<longrightarrow> helipad_x1 t = helipad_x2 t) \<and>
         ((N div 6 - 1) div 2 < 0 \<longrightarrow> helipad_x2 t < helipad_x1 t) \<and>
         ((N div 6 - 1) div 2 \<le> 0 \<longrightarrow>
            smooth_y t ! nat (N div 2) = helipad_y t \<and>
            (\<forall>j < nat N. j \<noteq> nat (N div 2) \<longrightarrow>
               smooth_y t ! j =
                 0.33 * (fst (uniform_size 0 (VIEWPORT_H P / SCALE P / 2) (nat (N + 1)) g) ! (if j = 0 then nat N else j - 1) +
                         fst (uniform_size 0 (VIEWPORT_H P / SCALE P / 2) (nat (N + 1)) g) ! j +
                         fst (uniform_size 0 (VIEWPORT_H P / SCALE P / 2) (nat (N + 1)) g) ! (j + 1))))))"
proof (intro conjI impI)
  assume "N \<le> 2"
  then show "gen_uav_terrain P N flat g =
        Inl (if N < - 1 then ValueError else if N = 1 then ZeroDivisionError else IndexError)"
    by (rule gen_uav_terrain_small)
next
  assume N: "3 \<le> N"
  define c where "c = N div 2"
  define w where "w = (N div 6 - 1) div 2"
  define W where "W = VIEWPORT_W P / SCALE P"
  define H where "H = VIEWPORT_H P / SCALE P"
  define h0 where "h0 = fst (uniform_size 0 (H / 2) (nat (N + 1)) g)"
  define hy where "hy = fst (uniform (H / 2) (H * 3 / 5) (\<lambda>n. g (nat (N + 1) + n)))"
  have wb: "0 \<le> c" "c < N" unfolding c_def using N by linarith+
  from gen_uav_terrain_ok [OF N W_def H_def c_def w_def h0_def hy_def refl refl, where flat = flat]
  obtain t g' d where t: "gen_uav_terrain P N flat g = Inr (t, g')"
    and hy: "helipad_y t = hy"
    and x1: "helipad_x1 t = W / real_of_int (N - 1) * real_of_int (c - w)"
    and x2: "helipad_x2 t = W / real_of_int (N - 1) * real_of_int (c + w)"
    and sm: "\<forall>j < nat N. smooth_y t ! j =
       (if int j \<noteq> c \<and> \<bar>int j - c\<bar> \<le> w then hy + d * real_of_int (int j - c)
        else if int j = c then hy
        else 0.33 * (h0 ! (if j = 0 then nat N else j - 1) + h0 ! j + h0 ! (j + 1)))"
    by blast
  have step: "0 < W / real_of_int (N - 1)"
    using P N by (simp add: params_ok_def W_def)
  have a: "helipad_x1 t = helipad_x2 t" if "w = 0"
    using that x1 x2 by simp
  have b: "helipad_x2 t < helipad_x1 t" if "w < 0"
  proof -
    have "real_of_int (c + w) < real_of_int (c - w)" using that by simp
    then show ?thesis unfolding x1 x2 using step by (rule mult_strict_left_mono)
  qed
  have cen: "smooth_y t ! nat c = helipad_y t"
    unfolding hy using platform_centre [OF sm wb] .
  have base: "smooth_y t ! j = 0.33 * (h0 ! (if j = 0 then nat N else j - 1) + h0 ! j + h0 ! (j + 1))"
    if "w \<le> 0" "j < nat N" "j \<noteq> nat c" for j
  proof -
    have "int j \<noteq> c" using that(3) wb by linarith
    moreover have "\<not> (int j \<noteq> c \<and> \<bar>int j - c\<bar> \<le> w)" using that(1) by linarith
    ultimately show ?thesis using sm [rule_format, OF that(2)] by (simp only: if_False)
  qed
  have "gen_uav_terrain P N flat g = Inr (t, g') \<and>
         (w = 0 \<longrightarrow> helipad_x1 t = helipad_x2 t) \<and>
         (w < 0 \<longrightarrow> helipad_x2 t < helipad_x1 t) \<and>
         (w \<le> 0 \<longrightarrow>
            smooth_y t ! nat c = helipad_y t \<and>
            (\<forall>j < nat N. j \<noteq> nat c \<longrightarrow>
               smooth_y t ! j = 0.33 * (h0 ! (if j = 0 then nat N else j - 1) + h0 ! j + h0 ! (j + 1))))"
    using t a b cen base by blast
  then show "\<exists>t g'. gen_uav_terrain P N flat g = Inr (t, g') \<and>
         ((N div 6 - 1) div 2 = 0 \<longrightarrow> helipad_x1 t = helipad_x2 t) \<and>
         ((N div 6 - 1) div 2 < 0 \<longrightarrow> helipad_x2 t < helipad_x1 t) \<and>
         ((N div 6 - 1) div 2 \<le> 0 \<longrightarrow>
            smooth_y t ! nat (N div 2) = helipad_y t \<and>
            (\<forall>j < nat N. j \<noteq> nat (N div 2) \<longrightarrow>
               smooth_y t ! j =
                 0.33 * (fst (uniform_size 0 (VIEWPORT_H P / SCALE P / 2) (nat (N + 1)) g) ! (if j = 0 then nat N else j - 1) +
                         fst (uniform_size 0 (VIEWPORT_H P / SCALE P / 2) (nat (N + 1)) g) ! j +
                         fst (uniform_size 0 (VIEWPORT_H P / SCALE P / 2) (nat (N + 1)) g) ! (j + 1))))"
    unfolding c_def w_def h0_def H_def by blast
qed

theorem generation_validates_nothing_witness:
  "params_ok gym_params \<and>
   gen_uav_terrain gym_params 1 True quarter_rng = Inl ZeroDivisionError \<and>
   gen_uav_terrain gym_params 2 True quarter_rng = Inl IndexError \<and>
   (\<exists>t g'. gen_uav_terrain gym_params 12 True quarter_rng = Inr (t, g') \<and>
      helipad_x1 t = helipad_x2 t \<and> smooth_y t ! 6 = helipad_y t) \<and>
   (\<exists>t g'. gen_uav_terrain gym_params 5 True quarter_rng = Inr (t, g') \<and>
      helipad_x2 t < helipad_x1 t)"
proof -
  note th = generation_validates_nothing [OF params_ok_gym, where flat = True and g = quarter_rng]
  have "gen_uav_terrain gym_params 1 True quarter_rng = Inl ZeroDivisionError"
    using th [of 1] by simp
  moreover have "gen_uav_terrain gym_params 2 True quarter_rng = Inl IndexError"
    using th [of 2] by simp
  moreover have "\<exists>t g'. gen_uav_terrain gym_params 12 True quarter_rng = Inr (t, g') \<and>
      helipad_x1 t = helipad_x2 t \<and> smooth_y t ! 6 = helipad_y t"
  proof -
    have "(3::int) \<le> 12" "((12::int) div 6 - 1) div 2 = 0" "((12::int) div 6 - 1) div 2 \<le> 0"
      "nat (12 div 2) = 6"
      by simp_all
    with th [of 12] show ?thesis by (metis (no_types, lifting))
  qed
  moreover have "\<exists>t g'. gen_uav_terrain gym_params 5 True quarter_rng = Inr (t, g') \<and>
      helipad_x2 t < helipad_x1 t"
  proof -
    have "(3::int) \<le> 5" "((5::int) div 6 - 1) div 2 < 0" by simp_all
    with th [of 5] show ?thesis by (metis (no_types, lifting))
  qed
  ultimately show ?thesis using params_ok_gym by blast
qed

section \<open>The horizontal coordinates\<close>

text \<open>
  Claim C8, as stated: for every \<open>N \<ge> 2\<close> generation produces the coordinates
  \<open>chunk_x[i] = (W / (N - 1)) * i\<close>. It fails at \<open>N = 2\<close>: line 65 computes the two
  coordinates, but line 75 then reads \<open>chunk_x[2]\<close>, and generation raises \<open>IndexError\<close>
  and produces nothing.
\<close>

theorem chunk_x_two_nodes_counterexample:
  "(2 :: int) \<le> 2 \<and>
   gen_chunk_x (VIEWPORT_W gym_params / SCALE gym_params) 2 = Inr [0, 20] \<and>
   gen_uav_terrain gym_params 2 True quarter_rng = Inl IndexError \<and>
   gen_uav_terrain gym_params 2 False quarter_rng = Inl IndexError"
proof -
  have n: "(2 :: int) \<le> 2" by simp
  have c: "gen_chunk_x (VIEWPORT_W gym_params / SCALE gym_params) 2 = Inr [0, 20]"
    by (simp add: gen_chunk_x_ok py_range_def upt_2 gym_params_def)
  show ?thesis
    using c gen_uav_terrain_small [OF n, of gym_params True quarter_rng]
      gen_uav_terrain_small [OF n, of gym_params False quarter_rng]
    by simp
qed

text \<open>
  Claim C8, amended. For every \<open>N \<ge> 3\<close> generation returns a terrain whose \<open>N\<close>
  horizontal coordinates are \<open>chunk_x[i] = (W / (N - 1)) * i\<close>: strictly increasing, evenly
  spaced, from 0 to \<open>W\<close>.
\<close>

theorem chunk_x_evenly_spaced:
  assumes N: "3 \<le> N" and P: "params_ok P"
  shows "\<exists>t g'. gen_uav_terrain P N flat g = Inr (t, g') \<and>
     length (chunk_x t) = nat N \<and>
     (\<forall>i < nat N. chunk_x t ! i = VIEWPORT_W P / SCALE P / real_of_int (N - 1) * real i) \<and>
     (\<forall>i j. i < j \<and> j < nat N \<longrightarrow> chunk_x t ! i < chunk_x t ! j) \<and>
     (\<forall>i. Suc i < nat N \<longrightarrow>
        chunk_x t ! Suc i - chunk_x t ! i = VIEWPORT_W P / SCALE P / real_of_int (N - 1)) \<and>
     chunk_x t ! 0 = 0 \<and> chunk_x t ! (nat N - 1) = VIEWPORT_W P / SCALE P"
proof -
  define W where "W = VIEWPORT_W P / SCALE P"
  define s where "s = W / real_of_int (N - 1)"
  from gen_uav_terrain_ok [OF N W_def refl refl refl refl refl refl refl, of flat g]
  obtain t g' where t: "gen_uav_terrain P N flat g = Inr (t, g')"
    and xs: "chunk_x t = map (\<lambda>i. W / real_of_int (N - 1) * real_of_int i) (py_range N)"
    by blast
  have W0: "0 < W" using P by (simp add: params_ok_def W_def)
  have s0: "0 < s" using W0 N by (simp add: s_def)
  have len: "length (chunk_x t) = nat N" by (simp add: xs)
  have nth: "chunk_x t ! i = s * real i" if "i < nat N" for i
    using that by (simp add: xs s_def nth_py_range)
  have mono: "chunk_x t ! i < chunk_x t ! j" if "i < j \<and> j < nat N" for i j
  proof -
    have "s * real i < s * real j" using that s0 by simp
    then show ?thesis using that nth by simp
  qed
  have gap: "chunk_x t ! Suc i - chunk_x t ! i = s" if "Suc i < nat N" for i
    using that nth [of i] nth [of "Suc i"] by (simp add: algebra_simps)
  have first: "chunk_x t ! 0 = 0" using nth [of 0] N by simp
  have "real (nat N - 1) = real_of_int (N - 1)" using N by simp
  then have "s * real (nat N - 1) = W" using N by (simp add: s_def)
  then have last: "chunk_x t ! (nat N - 1) = W" using nth [of "nat N - 1"] N by simp
  have "gen_uav_terrain P N flat g = Inr (t, g') \<and> length (chunk_x t) = nat N \<and>
     (\<forall>i < nat N. chunk_x t ! i = s * real i) \<and>
     (\<forall>i j. i < j \<and> j < nat N \<longrightarrow> chunk_x t ! i < chunk_x t ! j) \<and>
     (\<forall>i. Suc i < nat N \<longrightarrow> chunk_x t ! Suc i - chunk_x t ! i = s) \<and>
     chunk_x t ! 0 = 0 \<and> chunk_x t ! (nat N - 1) = W"
    using t len nth mono gap first last by blast
  then show ?thesis unfolding s_def W_def by blast
qed

theorem chunk_x_evenly_spaced_witness:
  "(3::int) \<le> 4 \<and> params_ok gym_params \<and>
   (\<exists>t g'. gen_uav_terrain gym_params 4 False quarter_rng = Inr (t, g') \<and>
      chunk_x t = [0, 20 / 3, 40 / 3, 20])"
proof -
  have h: "(3::int) \<le> 4" by simp
  from chunk_x_evenly_spaced [OF h params_ok_gym, of False quarter_rng]
  obtain t g' where r: "gen_uav_terrain gym_params 4 False quarter_rng = Inr (t, g')"
    and l: "length (chunk_x t) = nat 4"
    and n: "\<forall>i < nat 4. chunk_x t ! i =
              VIEWPORT_W gym_params / SCALE gym_params / real_of_int (4 - 1) * real i"
    by blast
  have "(0::nat) < nat 4" "(1::nat) < nat 4" "(2::nat) < nat 4" "(3::nat) < nat 4" by simp_all
  from n [rule_format, OF this(1)] n [rule_format, OF this(2)]
    n [rule_format, OF this(3)] n [rule_format, OF this(4)]
  have "chunk_x t ! 0 = 0" "chunk_x t ! 1 = 20 / 3" "chunk_x t ! 2 = 40 / 3" "chunk_x t ! 3 = 20"
    by (simp_all add: gym_params_def)
  moreover have "length (chunk_x t) = 4" using l by simp
  ultimately have "chunk_x t = [0, 20 / 3, 40 / 3, 20]"
    by (intro nth_equalityI) (auto simp: less_Suc_eq numeral_eq_Suc)
  then show ?thesis using h params_ok_gym r by blast
qed

section \<open>The legs\<close>

lemma legs_gen_uav_lander:
  "legs (fst (gen_uav_lander P g)) =
     [gen_leg P (VIEWPORT_H P / SCALE P) (- 1), gen_leg P (VIEWPORT_H P / SCALE P) 1]"
  by (simp add: gen_uav_lander_def Let_def uniform_def)

lemma lander_gen_uav_lander:
  "lander (fst (gen_uav_lander P g)) =
     \<lparr>position = (VIEWPORT_W P / SCALE P / 2, VIEWPORT_H P / SCALE P),
      angle = 0.0,
      fixtures =
        \<lparr>shape = polygonShape (map (\<lambda>(x, y). (x / SCALE P, y / SCALE P)) (LANDER_POLY P)),
         density = 5.0, friction = Some 0.1, restitution = 0.0,
         categoryBits = 0x0010, maskBits = 0x001, groupIndex = 0\<rparr>\<rparr>"
  by (simp add: gen_uav_lander_def Let_def uniform_def)

text \<open>
  Claim C7. The two legs are attached mirror-symmetrically about the lander's vertical
  axis (opposite horizontal anchor offsets and body offsets, equal vertical ones); each
  joint has its motor enabled with the same maximum torque and target speeds of equal
  magnitude 0.3 and opposite sign, and its limit enabled; the first leg's range is
  positive, the second's negative, and both span 0.5.
\<close>

theorem legs_mirror_symmetric:
  "\<exists>l0 l1. legs (fst (gen_uav_lander P g)) = [l0, l1] \<and>
     localAnchorA (joint l0) = (0, 0) \<and> localAnchorA (joint l1) = (0, 0) \<and>
     fst (localAnchorB (joint l0)) = - fst (localAnchorB (joint l1)) \<and>
     snd (localAnchorB (joint l0)) = snd (localAnchorB (joint l1)) \<and>
     fst (position (leg_body l0)) - fst (position (lander (fst (gen_uav_lander P g)))) =
       - (fst (position (leg_body l1)) - fst (position (lander (fst (gen_uav_lander P g))))) \<and>
     snd (position (leg_body l0)) = snd (position (leg_body l1)) \<and>
     enableMotor (joint l0) \<and> enableMotor (joint l1) \<and>
     maxMotorTorque (joint l0) = LEG_SPRING_TORQUE P \<and>
     maxMotorTorque (joint l1) = LEG_SPRING_TORQUE P \<and>
     motorSpeed (joint l0) = - motorSpeed (joint l1) \<and>
     \<bar>motorSpeed (joint l0)\<bar> = 0.3 \<and> \<bar>motorSpeed (joint l1)\<bar> = 0.3 \<and>
     enableLimit (joint l0) \<and> enableLimit (joint l1) \<and>
     0 < lowerAngle (joint l0) \<and> lowerAngle (joint l0) < upperAngle (joint l0) \<and>
     lowerAngle (joint l1) < upperAngle (joint l1) \<and> upperAngle (joint l1) < 0 \<and>
     upperAngle (joint l0) - lowerAngle (joint l0) = 0.5 \<and>
     upperAngle (joint l1) - lowerAngle (joint l1) = 0.5"
  unfolding legs_gen_uav_lander lander_gen_uav_lander
  by (simp add: gen_leg_def)

section \<open>Collision filtering\<close>

lemma leg_fixture:
  "l \<in> set (legs (fst (gen_uav_lander P g))) \<Longrightarrow>
     maskBits (fixtures (leg_body l)) = 0x001 \<and> categoryBits (fixtures (leg_body l)) = 0x0020 \<and>
     groupIndex (fixtures (leg_body l)) = 0"
  unfolding legs_gen_uav_lander by (auto simp: gen_leg_def)

lemma lander_fixture:
  "maskBits (fixtures (lander (fst (gen_uav_lander P g)))) = 0x001"
  "categoryBits (fixtures (lander (fst (gen_uav_lander P g)))) = 0x0010"
  "groupIndex (fixtures (lander (fst (gen_uav_lander P g)))) = 0"
  unfolding lander_gen_uav_lander by simp_all

lemma fixture_of_leg:
  assumes "fixture_of t (fst (gen_uav_lander P g)) (LegBody k) = Inr f"
  shows "maskBits f = 0x001 \<and> categoryBits f = 0x0020 \<and> groupIndex f = 0"
proof -
  let ?v = "fst (gen_uav_lander P g)"
  from assms obtain l where l: "py_get (legs ?v) (int k) = Inr l" "f = fixtures (leg_body l)"
    by (auto simp: fixture_of_def and_then_def split: sum.splits)
  from l(1) have "l \<in> set (legs ?v)"
    by (auto simp: py_get_def py_norm_def split: if_splits)
  then show ?thesis using leg_fixture l(2) by blast
qed

lemma lander_meets_ground_only:
  assumes "should_collide (fixtures (lander (fst (gen_uav_lander P g)))) f"
  shows "categoryBits f AND 0x0001 \<noteq> 0"
  using assms by (simp add: should_collide_def lander_fixture and.commute)

lemma should_collide_lander_moon:
  "should_collide (fixtures (lander (fst (gen_uav_lander P g)))) (moon_fixture e)"
  by (simp add: should_collide_def lander_fixture moon_fixture_def)

text \<open>
  Claim C10. The lander fixture and both leg fixtures have mask \<open>0x001\<close>, the lander
  category \<open>0x0010\<close>, the legs \<open>0x0020\<close>. Under the engine's filter rule no pair among
  the lander and the legs may collide; any fixture the lander may collide with is in the
  ground category \<open>0x0001\<close>; and a contact that sets the game-over flag is one between the
  lander and the ground.
\<close>

theorem vehicle_never_self_collides:
  "maskBits (fixtures (lander (fst (gen_uav_lander P g)))) = 0x001 \<and>
   categoryBits (fixtures (lander (fst (gen_uav_lander P g)))) = 0x0010 \<and>
   (\<forall>l \<in> set (legs (fst (gen_uav_lander P g))).
      maskBits (fixtures (leg_body l)) = 0x001 \<and> categoryBits (fixtures (leg_body l)) = 0x0020 \<and>
      \<not> should_collide (fixtures (lander (fst (gen_uav_lander P g)))) (fixtures (leg_body l)) \<and>
      \<not> should_collide (fixtures (leg_body l)) (fixtures (lander (fst (gen_uav_lander P g)))) \<and>
      (\<forall>l' \<in> set (legs (fst (gen_uav_lander P g))).
         \<not> should_collide (fixtures (leg_body l)) (fixtures (leg_body l')))) \<and>
   (\<forall>f. should_collide (fixtures (lander (fst (gen_uav_lander P g)))) f \<longrightarrow>
      categoryBits f AND 0x0001 \<noteq> 0) \<and>
   (\<forall>t e a b e'.
      contact_event t (fst (gen_uav_lander P g)) e a b = Some e' \<and> \<not> game_over e \<and> game_over e' \<longrightarrow>
        (a = LanderBody \<and> b = MoonBody) \<or> (a = MoonBody \<and> b = LanderBody))"
proof -
  let ?v = "fst (gen_uav_lander P g)"
  have legs: "maskBits (fixtures (leg_body l)) = 0x001 \<and> categoryBits (fixtures (leg_body l)) = 0x0020 \<and>
      \<not> should_collide (fixtures (lander ?v)) (fixtures (leg_body l)) \<and>
      \<not> should_collide (fixtures (leg_body l)) (fixtures (lander ?v)) \<and>
      (\<forall>l' \<in> set (legs ?v). \<not> should_collide (fixtures (leg_body l)) (fixtures (leg_body l')))"
    if "l \<in> set (legs ?v)" for l
    using leg_fixture [OF that] leg_fixture [of _ P g]
    by (simp add: should_collide_def lander_fixture)
  have over: "(a = LanderBody \<and> b = MoonBody) \<or> (a = MoonBody \<and> b = LanderBody)"
    if c: "contact_event t ?v e a b = Some e' \<and> \<not> game_over e \<and> game_over e'" for t e a b e'
  proof -
    from c obtain fa fb where f: "fixture_of t ?v a = Inr fa" "fixture_of t ?v b = Inr fb"
      and ne: "a \<noteq> b" and sc: "should_collide fa fb" and e': "e' = begin_contact e a b"
      by (auto simp: contact_event_def split: sum.splits if_splits)
    from c have "\<not> game_over e" "game_over (begin_contact e a b)" unfolding e' by simp_all
    then have ab: "a = LanderBody \<or> b = LanderBody" by (simp add: begin_contact_def)
    have la: "fixture_of t ?v LanderBody = Inr (fixtures (lander ?v))" by (simp add: fixture_of_def)
    show ?thesis
    proof (cases a)
      case MoonBody
      then show ?thesis using ab by simp
    next
      case LanderBody
      show ?thesis
      proof (cases b)
        case MoonBody
        then show ?thesis using LanderBody by simp
      next
        case LanderBody
        then show ?thesis using ne \<open>a = LanderBody\<close> by simp
      next
        case (LegBody k)
        have "fa = fixtures (lander ?v)" using f(1) la \<open>a = LanderBody\<close> by simp
        then have "\<not> should_collide fa fb"
          using fixture_of_leg [of t P g k fb] f(2) LegBody
          by (simp add: should_collide_def lander_fixture)
        then show ?thesis using sc by simp
      qed
    next
      case (LegBody k)
      then have "b = LanderBody" using ab by simp
      then have "fb = fixtures (lander ?v)" using f(2) la by simp
      then have "\<not> should_collide fa fb"
        using fixture_of_leg [of t P g k fa] f(1) LegBody
        by (simp add: should_collide_def lander_fixture)
      then show ?thesis using sc by simp
    qed
  qed
  show ?thesis
    using lander_fixture(1,2) [of P g] legs lander_meets_ground_only [of P g] over
    by (intro conjI ballI allI impI) blast+
qed

theorem vehicle_never_self_collides_witness:
  "(\<exists>l0 l1. legs (fst (gen_uav_lander gym_params quarter_rng)) = [l0, l1] \<and>
      maskBits (fixtures (leg_body l0)) = 0x001 \<and> categoryBits (fixtures (leg_body l0)) = 0x0020 \<and>
      \<not> should_collide (fixtures (lander (fst (gen_uav_lander gym_params quarter_rng)))) (fixtures (leg_body l0)) \<and>
      \<not> should_collide (fixtures (leg_body l0)) (fixtures (leg_body l1))) \<and>
   should_collide (fixtures (lander (fst (gen_uav_lander gym_params quarter_rng)))) (moon_fixture ((0, 0), (1, 0))) \<and>
   categoryBits (moon_fixture ((0, 0), (1, 0))) AND 0x0001 \<noteq> 0 \<and>
   (\<exists>t g' e'. gen_uav_terrain gym_params 90 False quarter_rng = Inr (t, g') \<and>
      contact_event t (fst (gen_uav_lander gym_params quarter_rng)) fresh_env LanderBody MoonBody = Some e' \<and>
      \<not> game_over fresh_env \<and> game_over e')"
proof -
  let ?v = "fst (gen_uav_lander gym_params quarter_rng)"
  note th = vehicle_never_self_collides [of gym_params quarter_rng]
  obtain l0 l1 where l: "legs ?v = [l0, l1]" by (simp add: legs_gen_uav_lander)
  then have m: "l0 \<in> set (legs ?v)" "l1 \<in> set (legs ?v)" by simp_all
  from th m have a: "maskBits (fixtures (leg_body l0)) = 0x001"
    "categoryBits (fixtures (leg_body l0)) = 0x0020"
    "\<not> should_collide (fixtures (lander ?v)) (fixtures (leg_body l0))"
    "\<not> should_collide (fixtures (leg_body l0)) (fixtures (leg_body l1))"
    by blast+
  have sc: "should_collide (fixtures (lander ?v)) (moon_fixture ((0, 0), (1, 0)))"
    by (rule should_collide_lander_moon)
  with th have cat: "categoryBits (moon_fixture ((0, 0), (1, 0))) AND 0x0001 \<noteq> 0" by blast
  have N: "(3::int) \<le> 90" by simp
  from gen_uav_terrain_ok [OF N refl refl refl refl refl refl refl refl, of gym_params False quarter_rng]
  obtain t g' where t: "gen_uav_terrain gym_params 90 False quarter_rng = Inr (t, g')"
    and len: "length (moon_edges t) = nat (90 - 1)"
    by blast
  have "moon_edges t \<noteq> []" using len by auto
  then obtain e where "py_get (moon_edges t) 0 = Inr e"
    by (cases "moon_edges t") (simp_all add: py_get_def py_norm_def)
  then have fm: "fixture_of t ?v MoonBody = Inr (moon_fixture e)" by (simp add: fixture_of_def)
  have fl: "fixture_of t ?v LanderBody = Inr (fixtures (lander ?v))" by (simp add: fixture_of_def)
  have ce: "contact_event t ?v fresh_env LanderBody MoonBody =
      Some (begin_contact fresh_env LanderBody MoonBody)"
    unfolding contact_event_def fm fl using should_collide_lander_moon [of gym_params quarter_rng e]
    by simp
  have go: "\<not> game_over fresh_env" "game_over (begin_contact fresh_env LanderBody MoonBody)"
    by (simp_all add: fresh_env_def begin_contact_def)
  show ?thesis using l a sc cat t ce go by blast
qed

section \<open>Reward and termination of a step\<close>

lemma contact_listener_fields:
  "prev_shaping (contact_listener e c) = prev_shaping e"
  "continuous_mode (contact_listener e c) = continuous_mode e"
  "np_random (contact_listener e c) = np_random e"
  "env_helipad_y (contact_listener e c) = env_helipad_y e"
  "enable_wind (contact_listener e c) = enable_wind e"
  "wind_idx (contact_listener e c) = wind_idx e"
  "torque_idx (contact_listener e c) = torque_idx e"
  by (cases c; simp add: contact_listener_def begin_contact_def end_contact_def)+

lemma world_Step_fields:
  "prev_shaping (world_Step e cs) = prev_shaping e"
  "continuous_mode (world_Step e cs) = continuous_mode e"
  "np_random (world_Step e cs) = np_random e"
  "env_helipad_y (world_Step e cs) = env_helipad_y e"
  "enable_wind (world_Step e cs) = enable_wind e"
  "wind_idx (world_Step e cs) = wind_idx e"
  "torque_idx (world_Step e cs) = torque_idx e"
  unfolding world_Step_def
  by (induction cs arbitrary: e; simp add: contact_listener_fields)+

lemma world_Step_game_over:
  "game_over (world_Step e cs) =
     (game_over e \<or> (\<exists>a b. BeginContact a b \<in> set cs \<and> (a = LanderBody \<or> b = LanderBody)))"
  unfolding world_Step_def
proof (induction cs arbitrary: e)
  case Nil
  then show ?case by simp
next
  case (Cons c cs)
  show ?case
  proof (cases c)
    case (BeginContact a b)
    then show ?thesis
      unfolding foldl_Cons Cons.IH
      by (auto simp: contact_listener_def begin_contact_def)
  next
    case (EndContact a b)
    then show ?thesis
      unfolding foldl_Cons Cons.IH
      by (auto simp: contact_listener_def end_contact_def)
  qed
qed

lemma apply_wind_fields:
  "prev_shaping (apply_wind e) = prev_shaping e"
  "continuous_mode (apply_wind e) = continuous_mode e"
  "game_over (apply_wind e) = game_over e"
  by (simp_all add: apply_wind_def)

lemma draw_dispersion_fields:
  "prev_shaping (snd (draw_dispersion P e)) = prev_shaping e"
  "continuous_mode (snd (draw_dispersion P e)) = continuous_mode e"
  "game_over (snd (draw_dispersion P e)) = game_over e"
  by (simp_all add: draw_dispersion_def uniform_def)

lemma step_returns:
  assumes "engine_power (continuous_mode e) act = Inr (m_power, s_power)"
  shows "step P e act cs b =
    Inr (observe P (world_Step (snd (draw_dispersion P (apply_wind e))) cs) b,
         (if \<not> awake b then 100
          else if game_over (world_Step (snd (draw_dispersion P (apply_wind e))) cs) \<or>
                  \<bar>observe P (world_Step (snd (draw_dispersion P (apply_wind e))) cs) b ! 0\<bar> \<ge> 1
          then - 100
          else (case prev_shaping e of
                  Some p \<Rightarrow> shaping_of (observe P (world_Step (snd (draw_dispersion P (apply_wind e))) cs) b) - p
                | None \<Rightarrow> 0)
                 - m_power * 0.30 - s_power * 0.03),
         \<not> awake b \<or> game_over (world_Step (snd (draw_dispersion P (apply_wind e))) cs) \<or>
           \<bar>observe P (world_Step (snd (draw_dispersion P (apply_wind e))) cs) b ! 0\<bar> \<ge> 1,
         False,
         (world_Step (snd (draw_dispersion P (apply_wind e))) cs)
           \<lparr>prev_shaping := Some (shaping_of (observe P (world_Step (snd (draw_dispersion P (apply_wind e))) cs) b))\<rparr>)"
proof -
  have p: "engine_power (continuous_mode (apply_wind e)) act = Inr (m_power, s_power)"
    using assms by (simp add: apply_wind_fields)
  have ps: "prev_shaping (world_Step (snd (draw_dispersion P (apply_wind e))) cs) = prev_shaping e"
    by (simp add: world_Step_fields draw_dispersion_fields apply_wind_fields)
  show ?thesis
    unfolding step_def Let_def p and_then_Inr prod.case
    by (simp add: split_beta ps)
qed

lemma zero_action_power:
  "engine_power c (if c then Continuous 0 0 else Discrete 0) = Inr (0, 0)"
  by (simp add: engine_power_def clip_def)

lemma step_no_contacts:
  assumes "engine_power (continuous_mode e) act = Inr (m_power, s_power)"
  shows "step P e act [] b =
    Inr (observe P e b,
         (if \<not> awake b then 100
          else if game_over e \<or> \<bar>observe P e b ! 0\<bar> \<ge> 1 then - 100
          else (case prev_shaping e of Some p \<Rightarrow> shaping_of (observe P e b) - p | None \<Rightarrow> 0)
                 - m_power * 0.30 - s_power * 0.03),
         \<not> awake b \<or> game_over e \<or> \<bar>observe P e b ! 0\<bar> \<ge> 1,
         False,
         (snd (draw_dispersion P (apply_wind e)))\<lparr>prev_shaping := Some (shaping_of (observe P e b))\<rparr>)"
proof -
  have o: "observe P (world_Step (snd (draw_dispersion P (apply_wind e))) []) b = observe P e b"
    by (simp add: observe_def world_Step_def draw_dispersion_def uniform_def apply_wind_def)
  have g: "game_over (world_Step (snd (draw_dispersion P (apply_wind e))) []) = game_over e"
    by (simp add: world_Step_def draw_dispersion_fields apply_wind_fields)
  have w: "world_Step (snd (draw_dispersion P (apply_wind e))) [] = snd (draw_dispersion P (apply_wind e))"
    by (simp add: world_Step_def)
  show ?thesis
    unfolding step_returns [OF assms] o g unfolding w ..
qed

lemma reset_returns:
  assumes "gen_uav_terrain P 90 False (np_random e) = Inr (t, g)"
  shows "reset P e cs b =
    and_then
      (step P
        (e\<lparr>game_over := False, prev_shaping := None, env_helipad_y := helipad_y t,
           np_random := snd (gen_uav_lander P g),
           leg0_ground_contact := False, leg1_ground_contact := False\<rparr>)
        (if continuous_mode e then Continuous 0 0 else Discrete 0) cs b)
      (\<lambda>(state, reward, terminated, truncated, e). Inr (state, e, t, fst (gen_uav_lander P g)))"
  unfolding reset_def Let_def by (simp add: assms split_beta)

lemma terrain_90_returns:
  "\<exists>t g. gen_uav_terrain P 90 False rg = Inr (t, g) \<and>
     helipad_y t = VIEWPORT_H P / SCALE P / 2 +
        (VIEWPORT_H P / SCALE P * 3 / 5 - VIEWPORT_H P / SCALE P / 2) * rg 91"
proof -
  have N: "(3::int) \<le> 90" by simp
  from gen_uav_terrain_ok [OF N refl refl refl refl refl refl refl refl, of P False rg]
  show ?thesis by (auto simp: uniform_def)
qed

lemma shaping_of_hover: "shaping_of [0, y, 0, 0, 0, 0, 0, 0] = - 100 * \<bar>y\<bar>"
  by (simp add: shaping_of_def)

lemma observe_spawned:
  "observe gym_params (fresh_env\<lparr>prev_shaping := ps\<rparr>) (spawned_lander\<lparr>awake := aw\<rparr>) =
     [0, 19 / 25, 0, 0, 0, 0, 0, 0]"
  by (simp add: observe_def gym_params_def fresh_env_def spawned_lander_def)

lemma observe_falling:
  "env_helipad_y e = 23 / 3 \<Longrightarrow> \<not> leg0_ground_contact e \<Longrightarrow> \<not> leg1_ground_contact e \<Longrightarrow>
   observe gym_params e falling_lander = [0, 71 / 100, 0, 0, 0, 0, 0, 0]"
  by (simp add: observe_def gym_params_def falling_lander_def)

lemma main_engine_power:
  "engine_power (continuous_mode (fresh_env\<lparr>prev_shaping := ps\<rparr>)) (Discrete 2) = Inr (1, 0)"
  by (simp add: engine_power_def fresh_env_def)

lemma reset_leaves_shaping:
  "\<exists>state e' t g. reset P e cs b = Inr (state, e', t, fst (gen_uav_lander P g)) \<and>
     gen_uav_terrain P 90 False (np_random e) = Inr (t, g) \<and>
     length state = 8 \<and>
     prev_shaping e' = Some (shaping_of state)"
proof -
  from terrain_90_returns [of P "np_random e"]
  obtain t g where tg: "gen_uav_terrain P 90 False (np_random e) = Inr (t, g)" by blast
  let ?e0 = "e\<lparr>game_over := False, prev_shaping := None, env_helipad_y := helipad_y t,
           np_random := snd (gen_uav_lander P g),
           leg0_ground_contact := False, leg1_ground_contact := False\<rparr>"
  have "continuous_mode ?e0 = continuous_mode e" by simp
  then have p: "engine_power (continuous_mode ?e0) (if continuous_mode e then Continuous 0 0 else Discrete 0) = Inr (0, 0)"
    using zero_action_power [of "continuous_mode e"] by simp
  show ?thesis
    unfolding reset_returns [OF tg] step_returns [OF p]
    using tg by (simp add: observe_def)
qed

lemma reset_fresh:
  "\<exists>state e' t v. reset gym_params fresh_env [] spawned_lander = Inr (state, e', t, v) \<and>
     state = [0, 19 / 25, 0, 0, 0, 0, 0, 0] \<and>
     prev_shaping e' = Some (- 76) \<and> \<not> game_over e' \<and> \<not> continuous_mode e' \<and>
     env_helipad_y e' = 23 / 3 \<and> \<not> leg0_ground_contact e' \<and> \<not> leg1_ground_contact e'"
proof -
  from terrain_90_returns [of gym_params quarter_rng]
  obtain t g where tg: "gen_uav_terrain gym_params 90 False quarter_rng = Inr (t, g)"
    and hy: "helipad_y t = 23 / 3"
    by (auto simp: gym_params_def quarter_rng_def)
  have tg': "gen_uav_terrain gym_params 90 False (np_random fresh_env) = Inr (t, g)"
    using tg by (simp add: fresh_env_def)
  let ?e0 = "fresh_env\<lparr>game_over := False, prev_shaping := None, env_helipad_y := helipad_y t,
           np_random := snd (gen_uav_lander gym_params g),
           leg0_ground_contact := False, leg1_ground_contact := False\<rparr>"
  have p: "engine_power (continuous_mode ?e0) (if continuous_mode fresh_env then Continuous 0 0 else Discrete 0) = Inr (0, 0)"
    by (simp add: engine_power_def fresh_env_def)
  have o: "observe gym_params ?e0 spawned_lander = [0, 19 / 25, 0, 0, 0, 0, 0, 0]"
    unfolding hy by (simp add: observe_def gym_params_def fresh_env_def spawned_lander_def)
  have aw: "awake spawned_lander" by (simp add: spawned_lander_def)
  have sh: "shaping_of [0, 19 / 25, 0, 0, 0, 0, 0, 0] = - 76"
    unfolding shaping_of_hover by simp
  show ?thesis
    unfolding reset_returns [OF tg'] step_no_contacts [OF p] o sh
    using aw hy
    by (simp add: draw_dispersion_def apply_wind_def uniform_def fresh_env_def split_beta)
qed

text \<open>
  Claim C2. Every step whose action is accepted returns. If the lander is not awake it
  returns terminated with reward 100, whatever else holds; otherwise, if the game-over
  flag is set (it was, or the listener set it during this step) or
  \<open>|state[0]| \<ge> 1.0\<close>, terminated with reward \<open>-100\<close>; otherwise not terminated, with the
  shaping-based reward unchanged.
\<close>

theorem step_termination_reward:
  assumes "engine_power (continuous_mode e) act = Inr (m_power, s_power)"
  shows "\<exists>state reward terminated e'.
     step P e act cs b = Inr (state, reward, terminated, False, e') \<and>
     game_over e' =
       (game_over e \<or> (\<exists>x y. BeginContact x y \<in> set cs \<and> (x = LanderBody \<or> y = LanderBody))) \<and>
     (\<not> awake b \<longrightarrow> terminated \<and> reward = 100) \<and>
     (awake b \<and> (game_over e' \<or> \<bar>state ! 0\<bar> \<ge> 1.0) \<longrightarrow> terminated \<and> reward = - 100) \<and>
     (awake b \<and> \<not> (game_over e' \<or> \<bar>state ! 0\<bar> \<ge> 1.0) \<longrightarrow>
        \<not> terminated \<and>
        reward = (case prev_shaping e of Some p \<Rightarrow> shaping_of state - p | None \<Rightarrow> 0)
                   - m_power * 0.30 - s_power * 0.03)"
proof -
  define e1 where "e1 = world_Step (snd (draw_dispersion P (apply_wind e))) cs"
  have g: "game_over e1 =
       (game_over e \<or> (\<exists>x y. BeginContact x y \<in> set cs \<and> (x = LanderBody \<or> y = LanderBody)))"
    by (simp add: e1_def world_Step_game_over draw_dispersion_fields apply_wind_fields)
  have g': "game_over (e1\<lparr>prev_shaping := v\<rparr>) = game_over e1" for v by simp
  show ?thesis
    unfolding step_returns [OF assms] e1_def [symmetric]
    by (intro exI conjI) (rule refl, simp_all only: g' g [symmetric], simp_all)
qed

theorem step_termination_reward_witness:
  "engine_power (continuous_mode fresh_env) (Discrete 2) = Inr (1, 0) \<and>
   (\<exists>state e'. step gym_params fresh_env (Discrete 2) [] (spawned_lander\<lparr>awake := False\<rparr>) =
        Inr (state, 100, True, False, e')) \<and>
   (\<exists>state e'. step gym_params fresh_env (Discrete 2) [BeginContact LanderBody MoonBody]
        (spawned_lander\<lparr>awake := True\<rparr>) = Inr (state, - 100, True, False, e')) \<and>
   (\<exists>state e'. step gym_params fresh_env (Discrete 2) [] (spawned_lander\<lparr>awake := True\<rparr>) =
        Inr (state, - (3 / 10), False, False, e'))"
proof -
  have p: "engine_power (continuous_mode fresh_env) (Discrete 2) = Inr (1, 0)"
    by (simp add: engine_power_def fresh_env_def)
  note th = step_termination_reward [OF p, where P = gym_params]
  have f: "\<not> game_over fresh_env" "prev_shaping fresh_env = None" by (simp_all add: fresh_env_def)
  have a: "\<exists>state e'. step gym_params fresh_env (Discrete 2) [] (spawned_lander\<lparr>awake := False\<rparr>) =
        Inr (state, 100, True, False, e')"
    using th [where cs = "[]" and b = "spawned_lander\<lparr>awake := False\<rparr>"] by auto
  have b: "\<exists>state e'. step gym_params fresh_env (Discrete 2) [BeginContact LanderBody MoonBody]
        (spawned_lander\<lparr>awake := True\<rparr>) = Inr (state, - 100, True, False, e')"
    using th [where cs = "[BeginContact LanderBody MoonBody]" and b = "spawned_lander\<lparr>awake := True\<rparr>"]
    by auto
  have c: "\<exists>state e'. step gym_params fresh_env (Discrete 2) [] (spawned_lander\<lparr>awake := True\<rparr>) =
        Inr (state, - (3 / 10), False, False, e')"
  proof -
    from th [where cs = "[]" and b = "spawned_lander\<lparr>awake := True\<rparr>"]
    obtain state reward terminated e' where
      s: "step gym_params fresh_env (Discrete 2) [] (spawned_lander\<lparr>awake := True\<rparr>) =
            Inr (state, reward, terminated, False, e')"
      and g: "\<not> game_over e'"
      and r: "awake (spawned_lander\<lparr>awake := True\<rparr>) \<and> \<not> (game_over e' \<or> \<bar>state ! 0\<bar> \<ge> 1.0) \<longrightarrow>
        \<not> terminated \<and> reward = (case prev_shaping fresh_env of Some p \<Rightarrow> shaping_of state - p | None \<Rightarrow> 0)
                   - 1 * 0.30 - 0 * 0.03"
      using f by auto
    from s step_no_contacts [OF p, of gym_params "spawned_lander\<lparr>awake := True\<rparr>"]
    have "state = observe gym_params fresh_env (spawned_lander\<lparr>awake := True\<rparr>)" by simp
    then have "state = [0, 19 / 25, 0, 0, 0, 0, 0, 0]"
      using observe_spawned [of "prev_shaping fresh_env" True] by simp
    then have "\<not> terminated \<and> reward = - (3 / 10)" using r g f by simp
    then show ?thesis using s by auto
  qed
  show ?thesis using p a b c by blast
qed

section \<open>The first step after reset\<close>

text \<open>
  Claim C3, as stated: on the first step after \<open>reset\<close> the shaping memory is unset and
  the reward is \<open>-(0.30 * m_power + 0.03 * s_power)\<close>. It fails: \<open>reset\<close> ends with a step
  of its own, so it returns with \<open>prev_shaping\<close> set (here to \<open>-76\<close>), and the first step
  taken after it, a non-terminal no-op with the lander a little lower, returns 5, not 0.
\<close>

theorem first_step_after_reset_counterexample:
  "\<not> isl (reset gym_params fresh_env [] spawned_lander) \<and>
   prev_shaping (fst (snd (projr (reset gym_params fresh_env [] spawned_lander)))) = Some (- 76) \<and>
   engine_power False (Discrete 0) = Inr (0, 0) \<and>
   \<not> isl (step gym_params (fst (snd (projr (reset gym_params fresh_env [] spawned_lander))))
            (Discrete 0) [] falling_lander) \<and>
   fst (snd (projr (step gym_params (fst (snd (projr (reset gym_params fresh_env [] spawned_lander))))
            (Discrete 0) [] falling_lander))) = 5 \<and>
   \<not> fst (snd (snd (projr (step gym_params (fst (snd (projr (reset gym_params fresh_env [] spawned_lander))))
            (Discrete 0) [] falling_lander)))) \<and>
   (5 :: real) \<noteq> - (0.30 * 0 + 0.03 * 0)"
proof -
  from reset_fresh obtain state e' t v where
    r: "reset gym_params fresh_env [] spawned_lander = Inr (state, e', t, v)"
    and e': "prev_shaping e' = Some (- 76)" "\<not> game_over e'" "\<not> continuous_mode e'"
      "env_helipad_y e' = 23 / 3" "\<not> leg0_ground_contact e'" "\<not> leg1_ground_contact e'"
    by blast
  have p0: "engine_power False (Discrete 0) = Inr (0, 0)" by (simp add: engine_power_def)
  then have p: "engine_power (continuous_mode e') (Discrete 0) = Inr (0, 0)" using e'(3) by simp
  have o: "observe gym_params e' falling_lander = [0, 71 / 100, 0, 0, 0, 0, 0, 0]"
    using e' by (simp add: observe_falling)
  have sh: "shaping_of [0, 71 / 100, 0, 0, 0, 0, 0, 0] = - 71"
    unfolding shaping_of_hover by simp
  have aw: "awake falling_lander" by (simp add: falling_lander_def)
  show ?thesis
    unfolding r using p0 e'(1,2) aw
    by (simp add: step_no_contacts [OF p] o sh)
qed

text \<open>
  Claim C3, amended. A non-terminal step taken with \<open>prev_shaping\<close> unset returns
  \<open>-(0.30 * m_power + 0.03 * s_power)\<close>; with \<open>prev_shaping = p\<close> it returns
  \<open>(shaping - p) - 0.30 * m_power - 0.03 * s_power\<close>, where \<open>shaping\<close> is
  \<open>-100 sqrt(s0^2 + s1^2) - 100 sqrt(s2^2 + s3^2) - 100 |s4| + 10 s6 + 10 s7\<close>; every step
  stores the current shaping in \<open>prev_shaping\<close>. \<open>reset\<close> clears \<open>prev_shaping\<close> and then
  takes the one step that finds it unset, so when \<open>reset\<close> returns \<open>prev_shaping\<close> holds
  the shaping of the observation returned.
\<close>

theorem step_shaping_reward:
  assumes "engine_power (continuous_mode e) act = Inr (m_power, s_power)"
  shows "(\<exists>state reward terminated e'.
       step P e act cs b = Inr (state, reward, terminated, False, e') \<and>
       shaping_of state =
         - 100 * sqrt ((state ! 0)\<^sup>2 + (state ! 1)\<^sup>2) - 100 * sqrt ((state ! 2)\<^sup>2 + (state ! 3)\<^sup>2)
         - 100 * \<bar>state ! 4\<bar> + 10 * state ! 6 + 10 * state ! 7 \<and>
       prev_shaping e' = Some (shaping_of state) \<and>
       (\<not> terminated \<and> prev_shaping e = None \<longrightarrow>
          reward = - (0.30 * m_power + 0.03 * s_power)) \<and>
       (\<forall>p. \<not> terminated \<and> prev_shaping e = Some p \<longrightarrow>
          reward = (shaping_of state - p) - 0.30 * m_power - 0.03 * s_power)) \<and>
     (\<exists>state e' t v. reset P e cs b = Inr (state, e', t, v) \<and>
        prev_shaping e' = Some (shaping_of state))"
proof
  show "\<exists>state reward terminated e'.
       step P e act cs b = Inr (state, reward, terminated, False, e') \<and>
       shaping_of state =
         - 100 * sqrt ((state ! 0)\<^sup>2 + (state ! 1)\<^sup>2) - 100 * sqrt ((state ! 2)\<^sup>2 + (state ! 3)\<^sup>2)
         - 100 * \<bar>state ! 4\<bar> + 10 * state ! 6 + 10 * state ! 7 \<and>
       prev_shaping e' = Some (shaping_of state) \<and>
       (\<not> terminated \<and> prev_shaping e = None \<longrightarrow>
          reward = - (0.30 * m_power + 0.03 * s_power)) \<and>
       (\<forall>p. \<not> terminated \<and> prev_shaping e = Some p \<longrightarrow>
          reward = (shaping_of state - p) - 0.30 * m_power - 0.03 * s_power)"
    unfolding step_returns [OF assms]
    by (simp add: shaping_of_def power2_eq_square)
  show "\<exists>state e' t v. reset P e cs b = Inr (state, e', t, v) \<and>
        prev_shaping e' = Some (shaping_of state)"
    using reset_leaves_shaping [of P e cs b] by blast
qed

theorem step_shaping_reward_witness:
  "engine_power (continuous_mode fresh_env) (Discrete 2) = Inr (1, 0) \<and>
   (\<exists>state e'. step gym_params fresh_env (Discrete 2) [] spawned_lander =
        Inr (state, - (3 / 10), False, False, e') \<and> prev_shaping e' = Some (- 76)) \<and>
   (\<exists>state e'. step gym_params (fresh_env\<lparr>prev_shaping := Some (- 76)\<rparr>) (Discrete 2) [] falling_lander =
        Inr (state, 47 / 10, False, False, e') \<and> prev_shaping e' = Some (- 71)) \<and>
   (\<exists>state e' t v. reset gym_params fresh_env [] spawned_lander = Inr (state, e', t, v) \<and>
        prev_shaping e' = Some (- 76))"
proof -
  have p: "engine_power (continuous_mode fresh_env) (Discrete 2) = Inr (1, 0)"
    by (simp add: engine_power_def fresh_env_def)
  have f: "\<not> game_over fresh_env" "prev_shaping fresh_env = None" "env_helipad_y fresh_env = 23 / 3"
    "\<not> leg0_ground_contact fresh_env" "\<not> leg1_ground_contact fresh_env"
    by (simp_all add: fresh_env_def)
  have sh: "shaping_of [0, 19 / 25, 0, 0, 0, 0, 0, 0] = - 76" "shaping_of [0, 71 / 100, 0, 0, 0, 0, 0, 0] = - 71"
    unfolding shaping_of_hover by simp_all
  have a: "\<exists>state e'. step gym_params fresh_env (Discrete 2) [] spawned_lander =
        Inr (state, - (3 / 10), False, False, e') \<and> prev_shaping e' = Some (- 76)"
  proof -
    from step_shaping_reward [OF p, of gym_params "[]" spawned_lander]
    obtain state reward terminated e' where
      s: "step gym_params fresh_env (Discrete 2) [] spawned_lander = Inr (state, reward, terminated, False, e')"
      and ps: "prev_shaping e' = Some (shaping_of state)"
      and r: "\<not> terminated \<and> prev_shaping fresh_env = None \<longrightarrow> reward = - (0.30 * 1 + 0.03 * 0)"
      by blast
    from s [unfolded step_no_contacts [OF p] sum.inject prod.inject]
    have st: "state = observe gym_params fresh_env spawned_lander"
      and tm: "terminated = (\<not> awake spawned_lander \<or> game_over fresh_env \<or>
                 \<bar>observe gym_params fresh_env spawned_lander ! 0\<bar> \<ge> 1)"
      by blast+
    have o: "observe gym_params fresh_env spawned_lander = [0, 19 / 25, 0, 0, 0, 0, 0, 0]"
      by (simp add: observe_def gym_params_def fresh_env_def spawned_lander_def)
    have nt: "\<not> terminated" unfolding tm o using f by (simp add: spawned_lander_def)
    with r f have "reward = - (3 / 10)" by simp
    then show ?thesis using s ps nt unfolding st o sh by simp
  qed
  have b: "\<exists>state e'. step gym_params (fresh_env\<lparr>prev_shaping := Some (- 76)\<rparr>) (Discrete 2) [] falling_lander =
        Inr (state, 47 / 10, False, False, e') \<and> prev_shaping e' = Some (- 71)"
  proof -
    let ?e = "fresh_env\<lparr>prev_shaping := Some (- 76)\<rparr>"
    note p' = main_engine_power [of "Some (- 76)"]
    from step_shaping_reward [OF p', of gym_params "[]" falling_lander]
    obtain state reward terminated e' where
      s: "step gym_params ?e (Discrete 2) [] falling_lander = Inr (state, reward, terminated, False, e')"
      and ps: "prev_shaping e' = Some (shaping_of state)"
      and r: "\<forall>q. \<not> terminated \<and> prev_shaping ?e = Some q \<longrightarrow>
                reward = (shaping_of state - q) - 0.30 * 1 - 0.03 * 0"
      by blast
    from s [unfolded step_no_contacts [OF p'] sum.inject prod.inject]
    have st: "state = observe gym_params ?e falling_lander"
      and tm: "terminated = (\<not> awake falling_lander \<or> game_over ?e \<or>
                 \<bar>observe gym_params ?e falling_lander ! 0\<bar> \<ge> 1)"
      by blast+
    have o: "observe gym_params ?e falling_lander = [0, 71 / 100, 0, 0, 0, 0, 0, 0]"
      using f by (intro observe_falling) simp_all
    have nt: "\<not> terminated" unfolding tm o using f by (simp add: falling_lander_def)
    from r [rule_format, of "- 76"] nt have "reward = (shaping_of state - (- 76)) - 0.30 * 1 - 0.03 * 0"
      by simp
    then have "reward = 47 / 10" unfolding st o sh by simp
    then show ?thesis using s ps nt unfolding st o sh by simp
  qed
  have c: "\<exists>state e' t v. reset gym_params fresh_env [] spawned_lander = Inr (state, e', t, v) \<and>
        prev_shaping e' = Some (- 76)"
  proof -
    from step_shaping_reward [OF p, of gym_params "[]" spawned_lander]
    obtain state e' t v where
      r: "reset gym_params fresh_env [] spawned_lander = Inr (state, e', t, v)"
      and ps: "prev_shaping e' = Some (shaping_of state)"
      by blast
    from reset_fresh r have "state = [0, 19 / 25, 0, 0, 0, 0, 0, 0]" by auto
    then show ?thesis using r ps sh by auto
  qed
  show ?thesis using p a b c by blast
qed

end
